theory Spec2Isabelle
  imports Main "HOL-Library.Word"
begin

section \<open>The writer (\<open>seri::json_writer\<close>)\<close>

text \<open>
  \<open>json_writer\<close> owns one \<open>std::string buffer\<close>. Every member function appends to it;
  the C++ methods mutate the object, the model returns the updated writer.
  Characters are bytes (\<open>char\<close> of the source, \<^typ>\<open>char\<close> here).
\<close>

record json_writer =
  buffer :: string

definition write_char :: "char \<Rightarrow> json_writer \<Rightarrow> json_writer" where
  \<comment> \<open>\<open>void write(char c) { buffer.push_back(c); }\<close>\<close>
  "write_char c out = out\<lparr>buffer := buffer out @ [c]\<rparr>"

definition write_view :: "string \<Rightarrow> json_writer \<Rightarrow> json_writer" where
  \<comment> \<open>\<open>void write(std::string_view view) { buffer.append(view); }\<close>\<close>
  "write_view view out = out\<lparr>buffer := buffer out @ view\<rparr>"

text \<open>
  The body of the \<open>switch\<close> in \<open>write_escaped\<close>: what one character of the view appends.
  \<open>0x5C\<close> is the backslash, \<open>0x22\<close> the double quote, \<open>0x0A\<close>, \<open>0x0D\<close> and \<open>0x09\<close> are
  newline, carriage return and horizontal tab.
\<close>

definition escape_char :: "char \<Rightarrow> string" where
  "escape_char c =
     (if c = CHR 0x5C then [CHR 0x5C, CHR 0x5C]
      else if c = CHR 0x22 then [CHR 0x5C, CHR 0x22]
      else if c = CHR 0x0A then [CHR 0x5C, CHR ''n'']
      else if c = CHR 0x0D then [CHR 0x5C, CHR ''r'']
      else if c = CHR 0x09 then [CHR 0x5C, CHR ''t'']
      else [c])"

text \<open>The range-for of \<open>write_escaped\<close> over the characters of the view.\<close>

fun write_escaped_loop :: "string \<Rightarrow> json_writer \<Rightarrow> json_writer" where
  "write_escaped_loop [] out = out"
| "write_escaped_loop (c # view) out =
     write_escaped_loop view (out\<lparr>buffer := buffer out @ escape_char c\<rparr>)"

definition write_escaped :: "string \<Rightarrow> json_writer \<Rightarrow> json_writer" where
  "write_escaped view out =
     write_char (CHR 0x22) (write_escaped_loop view (write_char (CHR 0x22) out))"

definition str :: "json_writer \<Rightarrow> string" where
  "str out = buffer out"

section \<open>Failures\<close>

text \<open>
  \<open>serialization_error\<close> is an aggregate of a message and a \<open>std::source_location\<close> whose
  default member initialiser is \<open>std::source_location::current()\<close>; with the designated
  initialiser \<open>{.message = ...}\<close> it is evaluated where the aggregate is built, that is at
  the \<open>throw\<close>. The model keeps the line of that place in \<open>seri.hpp\<close>.
\<close>

record source_location =
  line :: nat

record serialization_error =
  message :: string
  where_loc :: source_location

text \<open>
  What can leave \<open>serialize\<close> by an exception: the library's own error, and
  \<open>std::bad_variant_access\<close>, which \<open>std::visit\<close> throws for a variant that is valueless by
  exception.
\<close>

datatype exn = SerializationError serialization_error | BadVariantAccess

text \<open>
  The result of running a piece of the encoder.
  \<^item> \<open>Returns x\<close>: normal return; \<open>x\<close> holds the writer (and the locals still in scope).
  \<^item> \<open>Throws e out\<close>: an exception \<open>e\<close> propagates; the caller's writer is left as \<open>out\<close>.
  \<^item> \<open>IllFormed msg\<close>: the instantiation does not compile (a \<open>static_assert\<close> fires or an
    expression has no meaning for the type); nothing runs.
\<close>

datatype 'a outcome = Returns 'a | Throws exn json_writer | IllFormed string

fun then_do :: "'a outcome \<Rightarrow> ('a \<Rightarrow> 'b outcome) \<Rightarrow> 'b outcome" where
  "then_do (Returns x) f = f x"
| "then_do (Throws e out) f = Throws e out"
| "then_do (IllFormed msg) f = IllFormed msg"

text \<open>A range-for statement whose body may throw: the first failure ends the loop.\<close>

fun for_each :: "'a list \<Rightarrow> ('a \<Rightarrow> 's \<Rightarrow> 's outcome) \<Rightarrow> 's \<Rightarrow> 's outcome" where
  "for_each [] body st = Returns st"
| "for_each (x # xs) body st = then_do (body x st) (for_each xs body)"

section \<open>Numbers\<close>

text \<open>
  \<open>std::to_chars(first, last, value)\<close> for an integer, from the C++ standard: the decimal
  digits of \<open>value\<close>, most significant first, no leading zeros, a minus sign for a negative
  value. When the text does not fit in \<open>[first, last)\<close> the call reports
  \<open>std::errc::value_too_large\<close>; otherwise \<open>ec\<close> is value-initialised and \<open>ptr\<close> is one
  past the last character written. The model returns the characters written, or the
  error code. The first argument is the room between \<open>first\<close> and \<open>last\<close>.
\<close>

datatype errc = value_too_large

function decimal_digits :: "nat \<Rightarrow> string" where
  "decimal_digits n =
     (if n < 10 then [''0123456789'' ! n]
      else decimal_digits (n div 10) @ [''0123456789'' ! (n mod 10)])"
  by pat_completeness auto
termination
  by (relation "measure id") auto

declare decimal_digits.simps [simp del]

definition decimal_text :: "int \<Rightarrow> string" where
  "decimal_text i = (if i < 0 then CHR ''-'' # decimal_digits (nat (- i)) else decimal_digits (nat i))"

definition to_chars :: "nat \<Rightarrow> string \<Rightarrow> errc + string" where
  \<comment> \<open>the bounds check every overload of \<open>std::to_chars\<close> shares; \<open>text\<close> is what the value needs\<close>
  "to_chars room text = (if length text \<le> room then Inr text else Inl value_too_large)"

definition to_chars_integral :: "nat \<Rightarrow> int \<Rightarrow> errc + string" where
  "to_chars_integral room i = to_chars room (decimal_text i)"

text \<open>
  A floating-point value is represented by the characters the plain overload
  \<open>std::to_chars(first, last, value)\<close> produces for it when there is room (the shortest
  text that reads back to the same value); the encoder looks at nothing else of it.
\<close>

datatype floating = Floating (shortest_text: string)

definition to_chars_floating :: "nat \<Rightarrow> floating \<Rightarrow> errc + string" where
  "to_chars_floating room x = to_chars room (shortest_text x)"

definition serialize_boolean :: "json_writer \<Rightarrow> bool \<Rightarrow> json_writer outcome" where
  "serialize_boolean out b = Returns (write_view (if b then ''true'' else ''false'') out)"

definition serialize_integral :: "json_writer \<Rightarrow> int \<Rightarrow> json_writer outcome" where
  \<comment> \<open>\<open>char buffer[64]\<close>; the \<open>throw\<close> is at line 408\<close>
  "serialize_integral out i =
     (case to_chars_integral 64 i of
        Inl ec \<Rightarrow>
          Throws (SerializationError
            \<lparr>message = ''integral conversion failed'', where_loc = \<lparr>line = 408\<rparr>\<rparr>) out
      | Inr text \<Rightarrow> Returns (write_view text out))"

definition serialize_floating :: "json_writer \<Rightarrow> floating \<Rightarrow> json_writer outcome" where
  \<comment> \<open>\<open>char buffer[128]\<close>; the \<open>throw\<close> is at line 418\<close>
  "serialize_floating out x =
     (case to_chars_floating 128 x of
        Inl ec \<Rightarrow>
          Throws (SerializationError
            \<lparr>message = ''floating conversion failed'', where_loc = \<lparr>line = 418\<rparr>\<rparr>) out
      | Inr text \<Rightarrow> Returns (write_view text out))"

text \<open>
  A value of an integral type other than \<open>bool\<close>: its type, as far as the encoder can
  tell types apart (\<open>char\<close> itself, another signed type, an unsigned type), and its
  value converted to 64 bits. \<open>int_value\<close> is the integer it denotes.
\<close>

datatype int_kind = Char | Signed | Unsigned

datatype integral = Integral (kind: int_kind) (bits: "64 word")

definition int_value :: "integral \<Rightarrow> int" where
  "int_value i = (if kind i = Unsigned then uint (bits i) else sint (bits i))"

definition char_integral :: "char \<Rightarrow> integral" where
  \<comment> \<open>a \<open>char\<close> as an integral value; \<open>char\<close> is signed, as on x86-64, so a byte from
      \<open>0x80\<close> on is negative\<close>
  "char_integral c = Integral Char (scast (of_char c :: 8 word))"

section \<open>Enum descriptors (\<open>meta::enum_descriptor\<close>)\<close>

text \<open>
  \<open>enum_case_descriptor<Enum, Value>\<close> pairs a name with the enumerator; the tuple
  \<open>cases\<close> keeps the declaration order. Both lookups are a fold expression over the
  tuple that assigns only while \<open>result\<close> is still empty.
\<close>

datatype 'e enum_case_descriptor = EnumCase (case_name: string) (case_value: 'e)

record 'e enum_descriptor =
  cases :: "'e enum_case_descriptor list"

definition name_of :: "'e enum_descriptor \<Rightarrow> 'e \<Rightarrow> string option" where
  "name_of d v =
     foldl (\<lambda>result descriptor.
              if result = None \<and> case_value descriptor = v then Some (case_name descriptor)
              else result)
       None (cases d)"

definition value_of :: "'e enum_descriptor \<Rightarrow> string \<Rightarrow> 'e option" where
  "value_of d n =
     foldl (\<lambda>result descriptor.
              if result = None \<and> case_name descriptor = n then Some (case_value descriptor)
              else result)
       None (cases d)"

definition empty_enum :: "'e enum_descriptor" where
  "empty_enum = \<lparr>cases = []\<rparr>"

definition serialize_enum ::
  "json_writer \<Rightarrow> integral enum_descriptor \<Rightarrow> integral \<Rightarrow> json_writer outcome" where
  \<comment> \<open>an enumerator is its value in the underlying type, so the \<open>static_cast\<close> is the identity\<close>
  "serialize_enum out descriptor v =
     (case name_of descriptor v of
        Some n \<Rightarrow> Returns (write_escaped n out)
      | None \<Rightarrow> serialize_integral out (int_value v))"


section \<open>Type descriptors (\<open>meta::type_descriptor\<close>)\<close>

text \<open>
  \<open>field_descriptor<Ptr>\<close> holds a name; its member pointer \<open>Ptr\<close> is the position of the
  member in the object. \<open>type_descriptor\<close> holds the tuple of bases and the tuple of
  fields, both in declaration order. A \<open>base_descriptor<Base>\<close> only names the type
  \<open>Base\<close>, whose descriptor \<open>for_each_field_impl\<close> obtains with
  \<open>meta::type_description<Base>()\<close>; descriptors are compile-time constants, so the
  model stores that descriptor in place of the name.
\<close>

datatype field_descriptor = Field (field_name: string) (field_ptr: nat)

datatype type_descriptor =
  TypeDescriptor (bases: "type_descriptor list") (fields: "field_descriptor list")

section \<open>Values\<close>

text \<open>
  \<open>serialize\<close> is a template over the type \<open>T\<close> of the value; each constructor stands
  for the types that answer the \<open>if constexpr\<close> tests the same way, with what the encoder
  can read of a value of such a type.
  \<^item> \<open>VBool\<close>: \<open>bool\<close>.
  \<^item> \<open>VInt\<close>: an integral type other than \<open>bool\<close>.
  \<^item> \<open>VFloat\<close>: a floating-point type.
  \<^item> \<open>VString\<close>: a type that converts to \<open>std::string_view\<close> and is also a range of
    characters (\<open>std::string\<close>, \<open>std::string_view\<close>, \<open>std::vector<char>\<close>); the
    characters.
  \<^item> \<open>VCStr\<close>: \<open>const char *\<close>, which converts to \<open>std::string_view\<close> and is not a range;
    the characters before the terminator.
  \<^item> \<open>VEnum\<close>: an enumeration; \<open>meta::enum_description<Enum>()\<close> and the value.
  \<^item> \<open>VPairRange\<close>: a range whose value type has \<open>first_type\<close> and \<open>second_type\<close>
    (\<open>std::map\<close>, a vector of pairs); the pairs in iteration order.
  \<^item> \<open>VRange\<close>: any other range; the elements in iteration order.
  \<^item> \<open>VOptional\<close>: \<open>std::optional<U>\<close>, as specified up to C++23 (not a range).
  \<^item> \<open>VExpected\<close>: \<open>std::expected<Value, Error>\<close>; \<open>has_value()\<close> and the payload
    (\<open>value()\<close> or \<open>error()\<close>).
  \<^item> \<open>VVariant\<close>: \<open>std::variant<Ts...>\<close> holding an alternative; \<open>index()\<close> (a
    \<open>std::size_t\<close>) and the alternative. \<open>VVariantValueless\<close>: the same type, valueless by
    exception.
  \<^item> \<open>VObject\<close>: a class with \<open>reflect(tag<T>)\<close>; \<open>meta::type_description<T>()\<close> and the
    members of the object, which member pointers index.
  \<^item> \<open>VOpaque\<close>: a value of any other type (a pointer, a class with no description).

  A type can answer several tests at once. \<open>reflect(tag<T>)\<close> can be declared for any
  type \<open>T\<close>, and a class can have a conversion to \<open>std::string_view\<close> whatever else it is.
  \<^item> \<open>VReflected d ms v\<close>: a value of a type that has \<open>reflect(tag<T>)\<close> and answers every
    other test as \<open>v\<close> does (a range class with a description, an \<open>int\<close> with a
    description); \<open>d\<close> is \<open>meta::type_description<T>()\<close>, \<open>ms\<close> are the members its
    member pointers index, \<open>v\<close> is what the other branches read.
  \<^item> \<open>VConvertible s v\<close>: a value of a type for which \<open>std::string_view(value)\<close> is
    well-formed and gives \<open>s\<close>, and which answers every other test as \<open>v\<close> does: a class
    with \<open>operator std::string_view\<close> that is also a range or has a description, or a
    \<open>char\<close> array, whose view stops at the terminator while its range has every element
    (\<open>VConvertible ''hi'' (VRange [h, i, 0])\<close>).
  The model does not restrict which answers go together, so it also has values no C++
  type gives (a \<open>bool\<close> with a conversion); a statement about every \<open>val\<close> covers them
  too. Ill-formedness shows where a value shows it: an empty range says nothing of its
  element type, so the model encodes it where the C++ program may not compile.
\<close>

datatype val =
    VBool bool
  | VInt integral
  | VFloat floating
  | VString string
  | VCStr string
  | VEnum "integral enum_descriptor" integral
  | VPairRange "(val \<times> val) list"
  | VRange "val list"
  | VOptional "val option"
  | VExpected bool val
  | VVariant "64 word" val
  | VVariantValueless
  | VObject type_descriptor "val list"
  | VOpaque
  | VReflected type_descriptor "val list" val
  | VConvertible string val

subsection \<open>The compile-time tests\<close>

fun same_as_bool :: "val \<Rightarrow> bool" where
  "same_as_bool (VBool b) = True"
| "same_as_bool (VReflected d ms v) = same_as_bool v"
| "same_as_bool (VConvertible s v) = same_as_bool v"
| "same_as_bool v = False"

fun is_integral :: "val \<Rightarrow> bool" where
  \<comment> \<open>\<open>std::is_integral_v<bool>\<close> holds\<close>
  "is_integral (VBool b) = True"
| "is_integral (VInt i) = True"
| "is_integral (VReflected d ms v) = is_integral v"
| "is_integral (VConvertible s v) = is_integral v"
| "is_integral v = False"

fun same_as_char :: "val \<Rightarrow> bool" where
  "same_as_char (VInt i) = (kind i = Char)"
| "same_as_char (VReflected d ms v) = same_as_char v"
| "same_as_char (VConvertible s v) = same_as_char v"
| "same_as_char v = False"

fun is_floating_point :: "val \<Rightarrow> bool" where
  "is_floating_point (VFloat x) = True"
| "is_floating_point (VReflected d ms v) = is_floating_point v"
| "is_floating_point (VConvertible s v) = is_floating_point v"
| "is_floating_point v = False"

fun string_view_constructible :: "val \<Rightarrow> bool" where
  \<comment> \<open>\<open>requires(T value) { std::string_view(value); }\<close>\<close>
  "string_view_constructible (VString s) = True"
| "string_view_constructible (VCStr s) = True"
| "string_view_constructible (VReflected d ms v) = string_view_constructible v"
| "string_view_constructible (VConvertible s v) = True"
| "string_view_constructible v = False"

definition string_like :: "val \<Rightarrow> bool" where
  "string_like v \<longleftrightarrow> string_view_constructible v \<and> \<not> same_as_char v"

fun is_enum :: "val \<Rightarrow> bool" where
  "is_enum (VEnum d e) = True"
| "is_enum (VReflected d ms v) = is_enum v"
| "is_enum (VConvertible s v) = is_enum v"
| "is_enum v = False"

fun ranges_range :: "val \<Rightarrow> bool" where
  \<comment> \<open>\<open>std::ranges::range<T>\<close>\<close>
  "ranges_range (VString s) = True"
| "ranges_range (VPairRange ps) = True"
| "ranges_range (VRange xs) = True"
| "ranges_range (VReflected d ms v) = ranges_range v"
| "ranges_range (VConvertible s v) = ranges_range v"
| "ranges_range v = False"

fun pair_value_type :: "val \<Rightarrow> bool" where
  \<comment> \<open>the range's value type has \<open>first_type\<close> and \<open>second_type\<close>\<close>
  "pair_value_type (VPairRange ps) = True"
| "pair_value_type (VReflected d ms v) = pair_value_type v"
| "pair_value_type (VConvertible s v) = pair_value_type v"
| "pair_value_type v = False"

definition map_like :: "val \<Rightarrow> bool" where
  "map_like v \<longleftrightarrow> ranges_range v \<and> pair_value_type v"

definition range_like :: "val \<Rightarrow> bool" where
  "range_like v \<longleftrightarrow> ranges_range v \<and> \<not> string_like v"

fun optional_like :: "val \<Rightarrow> bool" where
  "optional_like (VOptional x) = True"
| "optional_like (VReflected d ms v) = optional_like v"
| "optional_like (VConvertible s v) = optional_like v"
| "optional_like v = False"

fun expected_like :: "val \<Rightarrow> bool" where
  "expected_like (VExpected ok x) = True"
| "expected_like (VReflected d ms v) = expected_like v"
| "expected_like (VConvertible s v) = expected_like v"
| "expected_like v = False"

fun variant_like :: "val \<Rightarrow> bool" where
  "variant_like (VVariant i x) = True"
| "variant_like VVariantValueless = True"
| "variant_like (VReflected d ms v) = variant_like v"
| "variant_like (VConvertible s v) = variant_like v"
| "variant_like v = False"

fun reflectable :: "val \<Rightarrow> bool" where
  \<comment> \<open>\<open>meta::has_type_description_v<T>\<close>\<close>
  "reflectable (VObject d ms) = True"
| "reflectable (VReflected d ms v) = True"
| "reflectable (VConvertible s v) = reflectable v"
| "reflectable v = False"

subsection \<open>What the encoder reads of a value\<close>

text \<open>
  Each function below is an expression of the source on \<open>value\<close>. The source evaluates
  it only under the test that gives it a meaning; elsewhere the model returns a fixed
  default, which no branch of \<open>serialize\<close> reads.
\<close>

fun bool_value :: "val \<Rightarrow> bool" where
  "bool_value (VBool b) = b"
| "bool_value (VReflected d ms v) = bool_value v"
| "bool_value (VConvertible s v) = bool_value v"
| "bool_value v = False"

fun integral_value :: "val \<Rightarrow> int" where
  \<comment> \<open>the integer a value of integral type denotes; \<open>bool\<close> never gets here\<close>
  "integral_value (VInt i) = int_value i"
| "integral_value (VBool b) = of_bool b"
| "integral_value (VReflected d ms v) = integral_value v"
| "integral_value (VConvertible s v) = integral_value v"
| "integral_value v = 0"

fun floating_value :: "val \<Rightarrow> floating" where
  "floating_value (VFloat x) = x"
| "floating_value (VReflected d ms v) = floating_value v"
| "floating_value (VConvertible s v) = floating_value v"
| "floating_value v = Floating []"

fun std_string_view :: "val \<Rightarrow> string" where
  \<comment> \<open>\<open>std::string_view(value)\<close>\<close>
  "std_string_view (VString s) = s"
| "std_string_view (VCStr s) = s"
| "std_string_view (VReflected d ms v) = std_string_view v"
| "std_string_view (VConvertible s v) = s"
| "std_string_view v = []"

fun enum_description :: "val \<Rightarrow> integral enum_descriptor" where
  "enum_description (VEnum d e) = d"
| "enum_description (VReflected d ms v) = enum_description v"
| "enum_description (VConvertible s v) = enum_description v"
| "enum_description v = empty_enum"

fun enum_value :: "val \<Rightarrow> integral" where
  "enum_value (VEnum d e) = e"
| "enum_value (VReflected d ms v) = enum_value v"
| "enum_value (VConvertible s v) = enum_value v"
| "enum_value v = Integral Signed 0"

fun map_entries :: "val \<Rightarrow> (val \<times> val) list" where
  \<comment> \<open>the pairs \<open>for (auto &&pair : range)\<close> visits\<close>
  "map_entries (VPairRange ps) = ps"
| "map_entries (VReflected d ms v) = map_entries v"
| "map_entries (VConvertible s v) = map_entries v"
| "map_entries v = []"

fun range_elements :: "val \<Rightarrow> val list" where
  \<comment> \<open>the elements \<open>for (auto &&element : range)\<close> visits; pairs are read by \<open>map_entries\<close>\<close>
  "range_elements (VRange xs) = xs"
| "range_elements (VString s) = map (\<lambda>c. VInt (char_integral c)) s"
| "range_elements (VReflected d ms v) = range_elements v"
| "range_elements (VConvertible s v) = range_elements v"
| "range_elements v = []"

fun has_value :: "val \<Rightarrow> bool" where
  "has_value (VOptional x) = (x \<noteq> None)"
| "has_value (VExpected ok x) = ok"
| "has_value (VReflected d ms v) = has_value v"
| "has_value (VConvertible s v) = has_value v"
| "has_value v = False"

fun payload :: "val \<Rightarrow> val" where
  \<comment> \<open>\<open>*value\<close> of an optional, \<open>value.value()\<close> or \<open>value.error()\<close> of an expected,
      the alternative \<open>std::visit\<close> passes on\<close>
  "payload (VOptional (Some x)) = x"
| "payload (VExpected ok x) = x"
| "payload (VVariant i x) = x"
| "payload (VReflected d ms v) = payload v"
| "payload (VConvertible s v) = payload v"
| "payload v = VOpaque"

fun valueless_by_exception :: "val \<Rightarrow> bool" where
  "valueless_by_exception VVariantValueless = True"
| "valueless_by_exception (VReflected d ms v) = valueless_by_exception v"
| "valueless_by_exception (VConvertible s v) = valueless_by_exception v"
| "valueless_by_exception v = False"

fun variant_index :: "val \<Rightarrow> 64 word" where
  \<comment> \<open>\<open>value.index()\<close>; \<open>std::variant_npos\<close> is \<open>size_t(-1)\<close>\<close>
  "variant_index (VVariant i x) = i"
| "variant_index (VReflected d ms v) = variant_index v"
| "variant_index (VConvertible s v) = variant_index v"
| "variant_index v = - 1"

fun type_description :: "val \<Rightarrow> type_descriptor" where
  "type_description (VObject d ms) = d"
| "type_description (VReflected d ms v) = d"
| "type_description (VConvertible s v) = type_description v"
| "type_description v = TypeDescriptor [] []"

fun members :: "val \<Rightarrow> val list" where
  "members (VObject d ms) = ms"
| "members (VReflected d ms v) = ms"
| "members (VConvertible s v) = members v"
| "members v = []"


section \<open>The encoder\<close>

fun write_delimiter :: "json_writer \<times> bool \<Rightarrow> json_writer \<times> bool" where
  \<comment> \<open>\<open>out\<close> and \<open>first\<close> are both passed by reference\<close>
  "write_delimiter (out, first) =
     (if first then (out, False) else (write_char CHR '','' out, first))"

definition serialize_string :: "json_writer \<Rightarrow> val \<Rightarrow> json_writer outcome" where
  "serialize_string out v =
     (if string_view_constructible v then Returns (write_escaped (std_string_view v) out)
      else IllFormed ''no conversion to std::string_view'')"

text \<open>
  \<open>serialize\<close> is declared before the helpers that call it back and defined after them.
  In the model each such helper takes the encoder of the nested values as its first
  argument; \<open>serialize\<close> below passes itself.
\<close>

definition serialize_sequence ::
  "(val \<Rightarrow> json_writer \<Rightarrow> json_writer outcome) \<Rightarrow> json_writer \<Rightarrow> val \<Rightarrow> json_writer outcome" where
  "serialize_sequence ser out rng =
     then_do
       (for_each (range_elements rng)
          (\<lambda>element (out1, first).
             case write_delimiter (out1, first) of
               (out2, first2) \<Rightarrow> then_do (ser element out2) (\<lambda>out3. Returns (out3, first2)))
          (write_char CHR ''['' out, True))
       (\<lambda>(out4, first). Returns (write_char CHR '']'' out4))"

definition serialize_map ::
  "(val \<Rightarrow> json_writer \<Rightarrow> json_writer outcome) \<Rightarrow> json_writer \<Rightarrow> val \<Rightarrow> json_writer outcome" where
  "serialize_map ser out rng =
     then_do
       (for_each (map_entries rng)
          (\<lambda>pair (out1, first).
             if \<not> string_like (fst pair) then IllFormed ''JSON map keys must be string-like''
             else
               case write_delimiter (out1, first) of
                 (out2, first2) \<Rightarrow>
                   then_do (serialize_string out2 (fst pair))
                     (\<lambda>out3. then_do (ser (snd pair) (write_char CHR '':'' out3))
                        (\<lambda>out4. Returns (out4, first2))))
          (write_char CHR ''{'' out, True))
       (\<lambda>(out5, first). Returns (write_char CHR ''}'' out5))"

definition field_get :: "field_descriptor \<Rightarrow> val list \<Rightarrow> val option" where
  \<comment> \<open>\<open>object.*Ptr\<close>; a pointer to a member the object does not have does not compile\<close>
  "field_get f object =
     (if field_ptr f < length object then Some (object ! field_ptr f) else None)"

lemma then_do_cong [fundef_cong]:
  "r = r' \<Longrightarrow> (\<And>x. r' = Returns x \<Longrightarrow> f x = g x) \<Longrightarrow> then_do r f = then_do r' g"
  by (cases r') auto

lemma for_each_cong [fundef_cong]:
  "xs = ys \<Longrightarrow> st = st' \<Longrightarrow> (\<And>x s. x \<in> set ys \<Longrightarrow> f x s = g x s)
   \<Longrightarrow> for_each xs f st = for_each ys g st'"
proof (induction ys arbitrary: xs st st')
  case Nil
  then show ?case by simp
next
  case (Cons y ys)
  have "for_each ys f s = for_each ys g s" for s
    using Cons.IH [of ys s s] Cons.prems(3) by simp
  then have "for_each ys f = for_each ys g" by (rule ext)
  with Cons.prems show ?case by simp
qed

text \<open>
  \<open>for_each_field_impl\<close>: first every base, through \<open>for_each_field\<close> on the same object
  seen as the base, then the type's own fields. \<open>fn\<close> is the callback.
\<close>

fun for_each_field_impl ::
    "val list \<Rightarrow> type_descriptor \<Rightarrow> (string \<Rightarrow> val \<Rightarrow> 's \<Rightarrow> 's outcome) \<Rightarrow> 's \<Rightarrow> 's outcome"
  and for_each_field ::
    "val list \<Rightarrow> type_descriptor \<Rightarrow> (string \<Rightarrow> val \<Rightarrow> 's \<Rightarrow> 's outcome) \<Rightarrow> 's \<Rightarrow> 's outcome"
where
  "for_each_field_impl object (TypeDescriptor bs fs) fn st =
     then_do (for_each bs (\<lambda>base. for_each_field object base fn) st)
       (for_each fs
          (\<lambda>field st1.
             case field_get field object of
               None \<Rightarrow> IllFormed ''member pointer of another class''
             | Some member \<Rightarrow> fn (field_name field) member st1))"
| "for_each_field object descriptor fn st = for_each_field_impl object descriptor fn st"

definition serialize_object_begin :: "json_writer \<Rightarrow> json_writer" where
  "serialize_object_begin out = write_char CHR ''{'' out"

definition serialize_object_end :: "json_writer \<Rightarrow> json_writer" where
  "serialize_object_end out = write_char CHR ''}'' out"

definition serialize_object ::
  "(val \<Rightarrow> json_writer \<Rightarrow> json_writer outcome) \<Rightarrow> json_writer \<Rightarrow> val \<Rightarrow> json_writer outcome" where
  "serialize_object ser out v =
     (let descriptor = type_description v in
      then_do
        (for_each_field (members v) descriptor
           (\<lambda>name field (out1, first).
              case write_delimiter (out1, first) of
                (out2, first2) \<Rightarrow>
                  then_do (ser field (write_char CHR '':'' (write_escaped name out2)))
                    (\<lambda>out3. Returns (out3, first2)))
           (serialize_object_begin out, True))
        (\<lambda>(out4, first). Returns (serialize_object_end out4)))"


text \<open>The callbacks of the helpers are applied to parts of the value only.\<close>

lemma for_each_field_impl_cong_aux:
  assumes "\<And>n v s. v \<in> set object \<Longrightarrow> fn n v s = fn' n v s"
  shows "for_each_field_impl object d fn st = for_each_field_impl object d fn' st"
proof (induction d arbitrary: st)
  case (TypeDescriptor bs fs)
  have own: "for_each fs
          (\<lambda>field st1.
             case field_get field object of
               None \<Rightarrow> IllFormed ''member pointer of another class''
             | Some member \<Rightarrow> fn (field_name field) member st1) s =
        for_each fs
          (\<lambda>field st1.
             case field_get field object of
               None \<Rightarrow> IllFormed ''member pointer of another class''
             | Some member \<Rightarrow> fn' (field_name field) member st1) s" for s
    by (rule for_each_cong) (auto simp: field_get_def assms split: option.splits)
  have base: "for_each bs (\<lambda>base. for_each_field object base fn) st =
        for_each bs (\<lambda>base. for_each_field object base fn') st"
    by (rule for_each_cong) (auto simp: TypeDescriptor.IH)
  show ?case
    by (simp add: base own cong: then_do_cong)
qed

lemma for_each_field_cong [fundef_cong]:
  "object = object' \<Longrightarrow> d = d' \<Longrightarrow> st = st'
   \<Longrightarrow> (\<And>n v s. v \<in> set object' \<Longrightarrow> fn n v s = fn' n v s)
   \<Longrightarrow> for_each_field object d fn st = for_each_field object' d' fn' st'"
  using for_each_field_impl_cong_aux [of object' fn fn' d' st'] by simp

lemma serialize_sequence_cong [fundef_cong]:
  "out = out' \<Longrightarrow> v = v'
   \<Longrightarrow> (\<And>x o1. x \<in> set (range_elements v') \<Longrightarrow> ser x o1 = ser' x o1)
   \<Longrightarrow> serialize_sequence ser out v = serialize_sequence ser' out' v'"
  unfolding serialize_sequence_def
  by (intro then_do_cong for_each_cong) (auto split: prod.splits)

lemma serialize_map_cong [fundef_cong]:
  "out = out' \<Longrightarrow> v = v'
   \<Longrightarrow> (\<And>x o1. x \<in> snd ` set (map_entries v') \<Longrightarrow> ser x o1 = ser' x o1)
   \<Longrightarrow> serialize_map ser out v = serialize_map ser' out' v'"
  unfolding serialize_map_def
  by (intro then_do_cong for_each_cong) (auto split: prod.splits)

lemma serialize_object_cong [fundef_cong]:
  "out = out' \<Longrightarrow> v = v'
   \<Longrightarrow> (\<And>x o1. x \<in> set (members v') \<Longrightarrow> ser x o1 = ser' x o1)
   \<Longrightarrow> serialize_object ser out v = serialize_object ser' out' v'"
  unfolding serialize_object_def Let_def
  by (intro then_do_cong for_each_field_cong) (auto split: prod.splits)


text \<open>What a branch of \<open>serialize\<close> recurses into is a part of the value.\<close>

lemma same_as_char_not_range: "same_as_char v \<Longrightarrow> \<not> ranges_range v"
  by (induction v) simp_all

lemma size_range_elements:
  "x \<in> set (range_elements v) \<Longrightarrow> range_like v \<Longrightarrow> size x < size v"
proof (induction v)
  case (VRange xs)
  then show ?case
    by (auto simp: less_Suc_eq_le intro: size_list_estimation')
next
  case (VReflected d ms v)
  then show ?case by (simp add: range_like_def string_like_def)
next
  case (VConvertible s v)
  then show ?case
    by (auto simp: range_like_def string_like_def dest: same_as_char_not_range)
qed (simp_all add: range_like_def string_like_def)

lemma size_map_entries:
  "x \<in> snd ` set (map_entries v) \<Longrightarrow> size x < size v"
proof (induction v)
  case (VPairRange ps)
  then obtain k where "(k, x) \<in> set ps" by auto
  then have "size x < Suc (size_list (size_prod size size) ps)"
    by (induction ps) auto
  then show ?case by simp
qed auto

lemma size_payload_optional:
  "optional_like v \<Longrightarrow> has_value v \<Longrightarrow> size (payload v) < size v"
  by (induction v) auto

lemma size_payload_expected: "expected_like v \<Longrightarrow> size (payload v) < size v"
  by (induction v) auto

lemma size_payload_variant:
  "variant_like v \<Longrightarrow> \<not> valueless_by_exception v \<Longrightarrow> size (payload v) < size v"
  by (induction v) auto

lemma size_members: "x \<in> set (members v) \<Longrightarrow> size x < size v"
proof (induction v)
  case (VObject d ms)
  then show ?case by (auto simp: less_Suc_eq_le intro: size_list_estimation')
next
  case (VReflected d ms v)
  then have "x \<in> set ms" by simp
  then have "size x \<le> size_list size ms"
    by (rule size_list_estimation') simp
  then show ?case by simp
qed auto

text \<open>
  \<open>serialize\<close>: the chain of \<open>if constexpr\<close> tests on the type of the value, in the order
  of the source; the last branch is the \<open>static_assert\<close>.
\<close>

function serialize :: "val \<Rightarrow> json_writer \<Rightarrow> json_writer outcome" where
  "serialize v out =
     (if same_as_bool v then serialize_boolean out (bool_value v)
      else if is_integral v \<and> \<not> same_as_bool v then serialize_integral out (integral_value v)
      else if is_floating_point v then serialize_floating out (floating_value v)
      else if string_like v then serialize_string out v
      else if is_enum v then serialize_enum out (enum_description v) (enum_value v)
      else if map_like v then serialize_map serialize out v
      else if range_like v then serialize_sequence serialize out v
      else if optional_like v then
        (if has_value v then serialize (payload v) out
         else Returns (write_view ''null'' out))
      else if expected_like v then
        (let out1 = write_char CHR ''{'' out;
             idx_field = (\<lambda>o1. write_char CHR '':'' (write_escaped ''state'' o1))
         in
           if has_value v then
             then_do (serialize_string (idx_field out1) (VString ''value''))
               (\<lambda>out2.
                  let out3 = write_char CHR '','' out2;
                      out4 = write_escaped ''value'' out3;
                      out5 = write_char CHR '':'' out4
                  in then_do (serialize (payload v) out5)
                       (\<lambda>out6. Returns (write_char CHR ''}'' out6)))
           else
             then_do (serialize_string (idx_field out1) (VString ''error''))
               (\<lambda>out2.
                  let out3 = write_char CHR '','' out2;
                      out4 = write_escaped ''error'' out3;
                      out5 = write_char CHR '':'' out4
                  in then_do (serialize (payload v) out5)
                       (\<lambda>out6. Returns (write_char CHR ''}'' out6))))
      else if variant_like v then
        (let index = variant_index v in
         if valueless_by_exception v then Throws BadVariantAccess out
         else
           (let out1 = serialize_object_begin out in
            case write_delimiter (out1, True) of
              (out2, first2) \<Rightarrow>
                let out3 = write_escaped ''index'' out2;
                    out4 = write_char CHR '':'' out3
                in then_do (serialize_integral out4 (uint index))
                     (\<lambda>out5.
                        case write_delimiter (out5, first2) of
                          (out6, first3) \<Rightarrow>
                            let out7 = write_escaped ''value'' out6;
                                out8 = write_char CHR '':'' out7
                            in then_do (serialize (payload v) out8)
                                 (\<lambda>out9. Returns (serialize_object_end out9)))))
      else if reflectable v then serialize_object serialize out v
      else IllFormed ''Type is not serializable'')"
  by pat_completeness auto
termination
proof (relation "measure (\<lambda>(v, out). size v)", goal_cases)
  case 1
  show ?case by simp
next
  case (2 v out x o1)
  then show ?case by (simp add: size_map_entries)
next
  case (3 v out x o1)
  then show ?case by (simp add: size_range_elements)
next
  case (4 v out)
  then show ?case by (simp add: size_payload_optional)
next
  case (5 v out)
  then show ?case by (simp add: size_payload_expected)
next
  case (6 v out)
  then show ?case by (simp add: size_payload_expected)
next
  case (7 v out)
  then show ?case by (simp add: size_payload_variant)
next
  case (8 v out x o1)
  then show ?case by (simp add: size_members)
qed

declare serialize.simps [simp del]

definition to_json :: "val \<Rightarrow> json_writer outcome" where
  "to_json v = serialize v \<lparr>buffer = []\<rparr>"

section \<open>The words of the specification\<close>

text \<open>
  The escaping table of the specification: five characters have a two-character escape,
  every other byte stands for itself. \<open>quoted s\<close> is the string form of \<open>s\<close>.
\<close>

definition spec_escape :: "char \<Rightarrow> string" where
  "spec_escape c =
     (case map_of
        [(CHR 0x5C, [CHR 0x5C, CHR 0x5C]),
         (CHR 0x22, [CHR 0x5C, CHR 0x22]),
         (CHR 0x0A, [CHR 0x5C, CHR ''n'']),
         (CHR 0x0D, [CHR 0x5C, CHR ''r'']),
         (CHR 0x09, [CHR 0x5C, CHR ''t''])] c of
        Some e \<Rightarrow> e
      | None \<Rightarrow> [c])"

definition quoted :: "string \<Rightarrow> string" where
  "quoted s = [CHR 0x22] @ concat (map spec_escape s) @ [CHR 0x22]"

text \<open>
  The repository has no decoder. \<open>unescape\<close> is the reference reading of the five escape
  sequences of the writer's table, used to state that the escaped text determines the
  original: a backslash introduces one of the five escapes, a bare double quote or a
  backslash followed by anything else is not a valid body.
\<close>

fun unescape :: "string \<Rightarrow> string option" where
  "unescape [] = Some []"
| "unescape (c # cs) =
     (if c = CHR 0x5C then
        (case cs of
           [] \<Rightarrow> None
         | d # ds \<Rightarrow>
             (if d = CHR 0x5C then map_option ((#) (CHR 0x5C)) (unescape ds)
              else if d = CHR 0x22 then map_option ((#) (CHR 0x22)) (unescape ds)
              else if d = CHR ''n'' then map_option ((#) (CHR 0x0A)) (unescape ds)
              else if d = CHR ''r'' then map_option ((#) (CHR 0x0D)) (unescape ds)
              else if d = CHR ''t'' then map_option ((#) (CHR 0x09)) (unescape ds)
              else None))
      else if c = CHR 0x22 then None
      else map_option ((#) c) (unescape cs))"

definition decode_quoted :: "string \<Rightarrow> string option" where
  \<comment> \<open>strip the surrounding quotes, then read the escapes\<close>
  "decode_quoted text =
     (if 2 \<le> length text \<and> hd text = CHR 0x22 \<and> last text = CHR 0x22
      then unescape (butlast (tl text)) else None)"

text \<open>
  Flattening, as the specification words it: the fields of every base, each base
  flattened in turn and in declared order, then the type's own fields.
\<close>

fun flattened_fields :: "type_descriptor \<Rightarrow> field_descriptor list" where
  "flattened_fields (TypeDescriptor bs fs) = concat (map flattened_fields bs) @ fs"

text \<open>
  The categories in their priority order, the test that makes a type qualify for each
  (the condition of the corresponding \<open>if constexpr\<close>), and the rule of each category
  (the body of that branch).
\<close>

datatype category =
    Boolean | Integer | FloatingPoint | StringLike | Enumeration | MapLike | SequenceLike
  | Optional | Result | Variant | ReflectableObject

definition priority_order :: "category list" where
  "priority_order =
     [Boolean, Integer, FloatingPoint, StringLike, Enumeration, MapLike, SequenceLike,
      Optional, Result, Variant, ReflectableObject]"

fun qualifies :: "category \<Rightarrow> val \<Rightarrow> bool" where
  "qualifies Boolean v = same_as_bool v"
| "qualifies Integer v = (is_integral v \<and> \<not> same_as_bool v)"
| "qualifies FloatingPoint v = is_floating_point v"
| "qualifies StringLike v = string_like v"
| "qualifies Enumeration v = is_enum v"
| "qualifies MapLike v = map_like v"
| "qualifies SequenceLike v = range_like v"
| "qualifies Optional v = optional_like v"
| "qualifies Result v = expected_like v"
| "qualifies Variant v = variant_like v"
| "qualifies ReflectableObject v = reflectable v"

definition classify :: "val \<Rightarrow> category option" where
  "classify v = find (\<lambda>c. qualifies c v) priority_order"

fun encode_as :: "category \<Rightarrow> val \<Rightarrow> json_writer \<Rightarrow> json_writer outcome" where
  "encode_as Boolean v out = serialize_boolean out (bool_value v)"
| "encode_as Integer v out = serialize_integral out (integral_value v)"
| "encode_as FloatingPoint v out = serialize_floating out (floating_value v)"
| "encode_as StringLike v out = serialize_string out v"
| "encode_as Enumeration v out = serialize_enum out (enum_description v) (enum_value v)"
| "encode_as MapLike v out = serialize_map serialize out v"
| "encode_as SequenceLike v out = serialize_sequence serialize out v"
| "encode_as Optional v out =
     (if has_value v then serialize (payload v) out else Returns (write_view ''null'' out))"
| "encode_as Result v out =
     (let tag = (if has_value v then ''value'' else ''error'');
          out1 = write_char CHR ''{'' out;
          out2 = write_char CHR '':'' (write_escaped ''state'' out1)
      in then_do (serialize_string out2 (VString tag))
           (\<lambda>out3.
              let out4 = write_char CHR '','' out3;
                  out5 = write_escaped tag out4;
                  out6 = write_char CHR '':'' out5
              in then_do (serialize (payload v) out6)
                   (\<lambda>out7. Returns (write_char CHR ''}'' out7))))"
| "encode_as Variant v out =
     (if valueless_by_exception v then Throws BadVariantAccess out
      else
        let out1 = write_char CHR '':'' (write_escaped ''index'' (serialize_object_begin out))
        in then_do (serialize_integral out1 (uint (variant_index v)))
             (\<lambda>out2.
                let out3 = write_char CHR '':'' (write_escaped ''value'' (write_char CHR '','' out2))
                in then_do (serialize (payload v) out3)
                     (\<lambda>out4. Returns (serialize_object_end out4))))"
| "encode_as ReflectableObject v out = serialize_object serialize out v"

text \<open>
  The text of an object, as the specification words it: an opening brace, the members
  \<open>"name":value\<close> separated by commas with none before the first and none after the
  last, a closing brace.
\<close>

fun comma_separated :: "string list \<Rightarrow> string" where
  "comma_separated [] = []"
| "comma_separated (x # xs) = x @ concat (map (\<lambda>y. CHR '','' # y) xs)"

definition object_text :: "(string \<times> string) list \<Rightarrow> string" where
  "object_text ms =
     ''{'' @ comma_separated (map (\<lambda>(n, e). quoted n @ '':'' @ e) ms) @ ''}''"

text \<open>
  Appending only: running a piece of the encoder on a writer gives what it gives on an
  empty writer, with the writer's earlier contents in front.
\<close>

fun shift :: "string \<Rightarrow> json_writer outcome \<Rightarrow> json_writer outcome" where
  "shift p (Returns out) = Returns (out\<lparr>buffer := p @ buffer out\<rparr>)"
| "shift p (Throws e out) = Throws e (out\<lparr>buffer := p @ buffer out\<rparr>)"
| "shift p (IllFormed msg) = IllFormed msg"

fun shift_st :: "string \<Rightarrow> (json_writer \<times> bool) outcome \<Rightarrow> (json_writer \<times> bool) outcome" where
  "shift_st p (Returns (out, first)) = Returns (out\<lparr>buffer := p @ buffer out\<rparr>, first)"
| "shift_st p (Throws e out) = Throws e (out\<lparr>buffer := p @ buffer out\<rparr>)"
| "shift_st p (IllFormed msg) = IllFormed msg"

definition appends :: "(json_writer \<Rightarrow> json_writer outcome) \<Rightarrow> bool" where
  "appends c \<longleftrightarrow> (\<forall>out. c out = shift (buffer out) (c \<lparr>buffer = []\<rparr>))"

definition appends_st :: "(json_writer \<times> bool \<Rightarrow> (json_writer \<times> bool) outcome) \<Rightarrow> bool" where
  "appends_st c \<longleftrightarrow>
     (\<forall>out first. c (out, first) = shift_st (buffer out) (c (\<lparr>buffer = []\<rparr>, first)))"

section \<open>Values of the repository's tests\<close>

text \<open>The enumeration \<open>Tone\<close> of \<open>serializer_tests.cpp\<close> with its \<open>reflect_enum\<close>.\<close>

definition tone :: "integral enum_descriptor" where
  "tone = \<lparr>cases = [EnumCase ''warm'' (Integral Signed 0), EnumCase ''cool'' (Integral Signed 1),
                    EnumCase ''neutral'' (Integral Signed 2)]\<rparr>"

text \<open>
  The classes \<open>Named\<close>, \<open>Address\<close> and \<open>Employee : Named\<close> with their \<open>reflect\<close>
  functions, and the object \<open>alice\<close>. A member pointer is the position of the member
  in the complete object: \<open>name\<close> of the base comes first.
\<close>

definition named_description :: type_descriptor where
  "named_description = TypeDescriptor [] [Field ''name'' 0]"

definition address_description :: type_descriptor where
  "address_description = TypeDescriptor [] [Field ''street'' 0, Field ''number'' 1]"

definition employee_description :: type_descriptor where
  "employee_description =
     TypeDescriptor [named_description]
       [Field ''id'' 1, Field ''address'' 2, Field ''favorite_numbers'' 3]"

definition alice :: val where
  "alice =
     VObject employee_description
       [VString ''Alice'',
        VInt (Integral Signed 7),
        VObject address_description [VString ''Fifth'', VInt (Integral Signed 9)],
        VRange [VInt (Integral Signed 3), VInt (Integral Signed 5), VInt (Integral Signed 7)]]"

text \<open>
  Values of types that answer several tests, which the tests of the repository do not
  have: \<open>labelled\<close>, of a class that is a \<open>std::string\<close> with one more member \<open>n\<close> and a
  \<open>reflect\<close> function (string-like, a range of characters and reflectable);
  \<open>described_numbers\<close>, of a range class with a description; \<open>described_flag\<close>, a
  \<open>bool\<close> for whose type \<open>reflect\<close> is declared; \<open>char_array\<close>, the array
  \<open>char[3]\<close> holding \<open>hi\<close> and its terminator.
\<close>

definition labelled :: val where
  "labelled = VReflected (TypeDescriptor [] [Field ''n'' 0]) [VInt (Integral Signed 1)] (VString ''hi'')"

definition described_numbers :: val where
  "described_numbers =
     VReflected (TypeDescriptor [] [Field ''n'' 0]) [VInt (Integral Signed 1)]
       (VRange [VInt (Integral Signed 1), VInt (Integral Signed 2)])"

definition described_flag :: val where
  "described_flag = VReflected (TypeDescriptor [] []) [] (VBool True)"

definition char_array :: val where
  "char_array =
     VConvertible ''hi''
       (VRange [VInt (char_integral CHR ''h''), VInt (char_integral CHR ''i''),
                VInt (char_integral (CHR 0x00))])"

section \<open>Properties of the encoder\<close>

subsection \<open>One equation of \<open>serialize\<close> for each kind of value\<close>

lemma serialize_VBool: "serialize (VBool b) out = serialize_boolean out b"
  by (simp add: serialize.simps)

lemma serialize_VInt: "serialize (VInt i) out = serialize_integral out (int_value i)"
  by (simp add: serialize.simps)

lemma serialize_VFloat: "serialize (VFloat x) out = serialize_floating out x"
  by (simp add: serialize.simps)

lemma serialize_VString: "serialize (VString s) out = Returns (write_escaped s out)"
  by (simp add: serialize.simps string_like_def serialize_string_def)

lemma serialize_VCStr: "serialize (VCStr s) out = Returns (write_escaped s out)"
  by (simp add: serialize.simps string_like_def serialize_string_def)

lemma serialize_VEnum: "serialize (VEnum d e) out = serialize_enum out d e"
  by (simp add: serialize.simps string_like_def)

lemma serialize_VPairRange:
  "serialize (VPairRange ps) out = serialize_map serialize out (VPairRange ps)"
  by (simp add: serialize.simps string_like_def map_like_def)

lemma serialize_VRange:
  "serialize (VRange xs) out = serialize_sequence serialize out (VRange xs)"
  by (simp add: serialize.simps string_like_def map_like_def range_like_def)

lemma serialize_VOptional_None:
  "serialize (VOptional None) out = Returns (write_view ''null'' out)"
  by (simp add: serialize.simps string_like_def map_like_def range_like_def)

lemma serialize_VOptional_Some: "serialize (VOptional (Some x)) out = serialize x out"
  by (subst serialize.simps) (simp add: string_like_def map_like_def range_like_def)

lemma serialize_VExpected_value:
  "serialize (VExpected True x) out =
     then_do
       (serialize x
          (write_char CHR '':'' (write_escaped ''value'' (write_char CHR '',''
            (write_escaped ''value'' (write_char CHR '':'' (write_escaped ''state''
              (write_char CHR ''{'' out))))))))
       (\<lambda>out6. Returns (write_char CHR ''}'' out6))"
  by (subst serialize.simps)
    (simp add: string_like_def map_like_def range_like_def serialize_string_def)

lemma serialize_VExpected_error:
  "serialize (VExpected False x) out =
     then_do
       (serialize x
          (write_char CHR '':'' (write_escaped ''error'' (write_char CHR '',''
            (write_escaped ''error'' (write_char CHR '':'' (write_escaped ''state''
              (write_char CHR ''{'' out))))))))
       (\<lambda>out6. Returns (write_char CHR ''}'' out6))"
  by (subst serialize.simps)
    (simp add: string_like_def map_like_def range_like_def serialize_string_def)

lemma serialize_VVariant:
  "serialize (VVariant i x) out =
     then_do
       (serialize_integral
          (write_char CHR '':'' (write_escaped ''index'' (serialize_object_begin out))) (uint i))
       (\<lambda>out5.
          then_do
            (serialize x (write_char CHR '':'' (write_escaped ''value'' (write_char CHR '','' out5))))
            (\<lambda>out9. Returns (serialize_object_end out9)))"
  by (subst serialize.simps)
    (simp add: string_like_def map_like_def range_like_def)

lemma serialize_VVariantValueless:
  "serialize VVariantValueless out = Throws BadVariantAccess out"
  by (simp add: serialize.simps string_like_def map_like_def range_like_def)

lemma serialize_VObject:
  "serialize (VObject d ms) out = serialize_object serialize out (VObject d ms)"
  by (simp add: serialize.simps string_like_def map_like_def range_like_def)

lemma serialize_VOpaque: "serialize VOpaque out = IllFormed ''Type is not serializable''"
  by (simp add: serialize.simps string_like_def map_like_def range_like_def)

subsection \<open>Dispatch\<close>

lemma serialize_dispatch:
  "serialize v out =
     (case classify v of
        Some c \<Rightarrow> encode_as c v out
      | None \<Rightarrow> IllFormed ''Type is not serializable'')"
  by (subst serialize.simps)
    (simp add: classify_def priority_order_def Let_def serialize_object_begin_def)

lemma classify_qualifies: "classify v = Some c \<Longrightarrow> qualifies c v"
  by (auto simp: classify_def find_Some_iff)

subsection \<open>The encoder only appends\<close>

lemma shift_Nil [simp]: "shift [] r = r"
  by (cases r) simp_all

lemma shift_shift [simp]: "shift p (shift q r) = shift (p @ q) r"
  by (cases r) simp_all

lemma shift_st_shift_st [simp]: "shift_st p (shift_st q r) = shift_st (p @ q) r"
  by (induction q r rule: shift_st.induct) simp_all

lemma appendsD: "appends c \<Longrightarrow> c out = shift (buffer out) (c \<lparr>buffer = []\<rparr>)"
  unfolding appends_def by (erule spec)

lemma appends_stD:
  "appends_st c \<Longrightarrow> c (out, first) = shift_st (buffer out) (c (\<lparr>buffer = []\<rparr>, first))"
  unfolding appends_st_def by blast

lemma write_escaped_loop_buffer:
  "write_escaped_loop view out = out\<lparr>buffer := buffer out @ concat (map escape_char view)\<rparr>"
  by (induction view arbitrary: out) simp_all

lemma write_escaped_buffer:
  "write_escaped view out =
     out\<lparr>buffer := buffer out @ [CHR 0x22] @ concat (map escape_char view) @ [CHR 0x22]\<rparr>"
  by (simp add: write_escaped_def write_char_def write_escaped_loop_buffer)

lemmas writer_simps =
  write_char_def write_view_def write_escaped_buffer serialize_object_begin_def
  serialize_object_end_def

lemma then_do_shift:
  assumes "\<And>w. f (w\<lparr>buffer := p @ buffer w\<rparr>) = shift p (f w)"
  shows "then_do (shift p r) f = shift p (then_do r f)"
  by (cases r) (simp_all add: assms)

lemma then_do_shift_st:
  assumes "\<And>w b. f (w\<lparr>buffer := p @ buffer w\<rparr>, b) = shift_st p (f (w, b))"
  shows "then_do (shift_st p r) f = shift_st p (then_do r f)"
proof (cases r)
  case (Returns st)
  then show ?thesis by (cases st) (simp add: assms)
qed simp_all

lemma then_do_shift_lift:
  "then_do (shift p r) (\<lambda>out. Returns (out, b)) = shift_st p (then_do r (\<lambda>out. Returns (out, b)))"
  by (cases r) simp_all

lemma then_do_shift_st_drop:
  assumes "\<And>w. g (w\<lparr>buffer := p @ buffer w\<rparr>) = (g w)\<lparr>buffer := p @ buffer (g w)\<rparr>"
  shows "then_do (shift_st p r) (\<lambda>(out, b). Returns (g out)) =
         shift p (then_do r (\<lambda>(out, b). Returns (g out)))"
proof (cases r)
  case (Returns st)
  then show ?thesis by (cases st) (simp add: assms)
qed simp_all

lemma for_each_appends_st:
  assumes "\<And>x. x \<in> set xs \<Longrightarrow> appends_st (body x)"
  shows "appends_st (for_each xs body)"
  using assms
proof (induction xs)
  case Nil
  show ?case by (simp add: appends_st_def)
next
  case (Cons x xs)
  have bx: "appends_st (body x)" and rest: "appends_st (for_each xs body)"
    using Cons by simp_all
  have step: "for_each xs body (w\<lparr>buffer := p @ buffer w\<rparr>, b) = shift_st p (for_each xs body (w, b))"
    for w p b
    by (subst appends_stD [OF rest], subst (2) appends_stD [OF rest]) simp
  show ?case
    unfolding appends_st_def
  proof (intro allI)
    fix out first
    have "for_each (x # xs) body (out, first) =
          then_do (shift_st (buffer out) (body x (\<lparr>buffer = []\<rparr>, first))) (for_each xs body)"
      by (simp add: appends_stD [OF bx, of out first])
    also have "\<dots> = shift_st (buffer out) (then_do (body x (\<lparr>buffer = []\<rparr>, first)) (for_each xs body))"
      by (rule then_do_shift_st) (rule step)
    finally show "for_each (x # xs) body (out, first) =
          shift_st (buffer out) (for_each (x # xs) body (\<lparr>buffer = []\<rparr>, first))"
      by simp
  qed
qed

text \<open>The loop body shared by sequences, maps and objects, once the key is written.\<close>

lemma member_body_appends_st:
  assumes "appends c"
  shows "appends_st (\<lambda>(out1, first).
           case write_delimiter (out1, first) of
             (out2, first2) \<Rightarrow>
               then_do (c (out2\<lparr>buffer := buffer out2 @ key\<rparr>)) (\<lambda>out3. Returns (out3, first2)))"
  unfolding appends_st_def
proof (intro allI)
  fix out first
  have a: "c w = shift (buffer w) (c \<lparr>buffer = []\<rparr>)" for w
    by (rule appendsD [OF assms])
  show "(case (out, first) of
       (out1, first) \<Rightarrow>
         case write_delimiter (out1, first) of
           (out2, first2) \<Rightarrow>
             then_do (c (out2\<lparr>buffer := buffer out2 @ key\<rparr>)) (\<lambda>out3. Returns (out3, first2))) =
      shift_st (buffer out)
       (case (\<lparr>buffer = []\<rparr>, first) of
         (out1, first) \<Rightarrow>
           case write_delimiter (out1, first) of
             (out2, first2) \<Rightarrow>
               then_do (c (out2\<lparr>buffer := buffer out2 @ key\<rparr>)) (\<lambda>out3. Returns (out3, first2)))"
    apply (cases first)
     apply (simp_all add: write_char_def)
     apply (subst a, subst (2) a, simp add: then_do_shift_lift)
    apply (subst a, subst (2) a, simp add: then_do_shift_lift)
    done
qed

lemma bracket_appends:
  assumes "appends_st loop"
  shows "appends (\<lambda>out. then_do (loop (out\<lparr>buffer := buffer out @ opening\<rparr>, True))
                    (\<lambda>(out4, first). Returns (out4\<lparr>buffer := buffer out4 @ closing\<rparr>)))"
  unfolding appends_def
proof (intro allI)
  fix out
  have l: "loop (w, True) = shift_st (buffer w) (loop (\<lparr>buffer = []\<rparr>, True))" for w
    by (rule appends_stD [OF assms])
  show "then_do (loop (out\<lparr>buffer := buffer out @ opening\<rparr>, True))
          (\<lambda>(out4, first). Returns (out4\<lparr>buffer := buffer out4 @ closing\<rparr>)) =
        shift (buffer out)
          (then_do (loop (\<lparr>buffer = []\<rparr>\<lparr>buffer := buffer \<lparr>buffer = []\<rparr> @ opening\<rparr>, True))
             (\<lambda>(out4, first). Returns (out4\<lparr>buffer := buffer out4 @ closing\<rparr>)))"
    by (subst l, subst (2) l) (simp add: then_do_shift_st_drop)
qed

lemma serialize_sequence_appends:
  assumes "\<And>x. x \<in> set (range_elements v) \<Longrightarrow> appends (ser x)"
  shows "appends (\<lambda>out. serialize_sequence ser out v)"
proof -
  let ?body = "\<lambda>element (out1, first).
             case write_delimiter (out1, first) of
               (out2, first2) \<Rightarrow> then_do (ser element out2) (\<lambda>out3. Returns (out3, first2))"
  have "appends_st (?body x)" if "x \<in> set (range_elements v)" for x
    using member_body_appends_st [OF assms [OF that], of "[]"] by simp
  then have "appends_st (for_each (range_elements v) ?body)"
    by (rule for_each_appends_st)
  from bracket_appends [OF this, of "''[''" "'']''"]
  show ?thesis
    by (simp add: serialize_sequence_def write_char_def)
qed

lemma serialize_map_appends:
  assumes "\<And>x. x \<in> snd ` set (map_entries v) \<Longrightarrow> appends (ser x)"
  shows "appends (\<lambda>out. serialize_map ser out v)"
proof -
  let ?body = "\<lambda>pair (out1, first).
             if \<not> string_like (fst pair) then IllFormed ''JSON map keys must be string-like''
             else
               case write_delimiter (out1, first) of
                 (out2, first2) \<Rightarrow>
                   then_do (serialize_string out2 (fst pair))
                     (\<lambda>out3. then_do (ser (snd pair) (write_char CHR '':'' out3))
                        (\<lambda>out4. Returns (out4, first2)))"
  have "appends_st (?body pair)" if "pair \<in> set (map_entries v)" for pair
  proof (cases "string_like (fst pair)")
    case True
    have "appends (ser (snd pair))" using that by (intro assms) simp
    from member_body_appends_st [OF this,
        of "[CHR 0x22] @ concat (map escape_char (std_string_view (fst pair))) @ [CHR 0x22] @ '':''"]
    show ?thesis using True
      by (simp add: serialize_string_def string_like_def writer_simps split: prod.splits)
  next
    case False
    then show ?thesis by (simp add: appends_st_def)
  qed
  then have "appends_st (for_each (map_entries v) ?body)"
    by (rule for_each_appends_st)
  from bracket_appends [OF this, of "''{''" "''}''"]
  show ?thesis
    by (simp add: serialize_map_def write_char_def)
qed

lemma for_each_field_eq: "for_each_field object d fn = for_each_field_impl object d fn"
  by (rule ext) simp

lemma for_each_field_impl_appends_st:
  assumes "\<And>n x. x \<in> set object \<Longrightarrow> appends_st (fn n x)"
  shows "appends_st (for_each_field_impl object d fn)"
proof (induction d)
  case (TypeDescriptor bs fs)
  have bases: "appends_st (for_each bs (\<lambda>base. for_each_field object base fn))"
    by (rule for_each_appends_st) (simp add: TypeDescriptor.IH for_each_field_eq)
  have own: "appends_st (for_each fs
          (\<lambda>field st1.
             case field_get field object of
               None \<Rightarrow> IllFormed ''member pointer of another class''
             | Some member \<Rightarrow> fn (field_name field) member st1))"
  proof (rule for_each_appends_st)
    fix f assume "f \<in> set fs"
    show "appends_st (\<lambda>st1. case field_get f object of
               None \<Rightarrow> IllFormed ''member pointer of another class''
             | Some member \<Rightarrow> fn (field_name f) member st1)"
    proof (cases "field_get f object")
      case None
      then show ?thesis by (simp add: appends_st_def)
    next
      case (Some m)
      then have "m \<in> set object" by (auto simp: field_get_def split: if_splits)
      from assms [OF this, of "field_name f"] show ?thesis by (simp add: Some)
    qed
  qed
  have o: "for_each fs
          (\<lambda>field st1.
             case field_get field object of
               None \<Rightarrow> IllFormed ''member pointer of another class''
             | Some member \<Rightarrow> fn (field_name field) member st1) (w\<lparr>buffer := p @ buffer w\<rparr>, b) =
        shift_st p (for_each fs
          (\<lambda>field st1.
             case field_get field object of
               None \<Rightarrow> IllFormed ''member pointer of another class''
             | Some member \<Rightarrow> fn (field_name field) member st1) (w, b))" for w p b
    by (subst appends_stD [OF own], subst (2) appends_stD [OF own]) simp
  show ?case
    unfolding appends_st_def
  proof (intro allI)
    fix out first
    show "for_each_field_impl object (TypeDescriptor bs fs) fn (out, first) =
          shift_st (buffer out)
            (for_each_field_impl object (TypeDescriptor bs fs) fn (\<lparr>buffer = []\<rparr>, first))"
      apply (simp only: for_each_field_impl.simps)
      apply (subst appends_stD [OF bases])
      apply (rule then_do_shift_st)
      apply (rule o)
      done
  qed
qed

lemma serialize_object_appends:
  assumes "\<And>x. x \<in> set (members v) \<Longrightarrow> appends (ser x)"
  shows "appends (\<lambda>out. serialize_object ser out v)"
proof -
  let ?fn = "\<lambda>name field (out1, first).
              case write_delimiter (out1, first) of
                (out2, first2) \<Rightarrow>
                  then_do (ser field (write_char CHR '':'' (write_escaped name out2)))
                    (\<lambda>out3. Returns (out3, first2))"
  have "appends_st (?fn n x)" if "x \<in> set (members v)" for n x
    using member_body_appends_st [OF assms [OF that],
        of "[CHR 0x22] @ concat (map escape_char n) @ [CHR 0x22] @ '':''"]
    by (simp add: writer_simps)
  then have "appends_st (for_each_field (members v) (type_description v) ?fn)"
    unfolding for_each_field_eq by (rule for_each_field_impl_appends_st)
  from bracket_appends [OF this, of "''{''" "''}''"]
  show ?thesis
    by (simp add: serialize_object_def writer_simps)
qed

lemma serialize_integral_appends: "appends (\<lambda>out. serialize_integral out i)"
  by (simp add: appends_def serialize_integral_def write_view_def split: sum.splits)

lemma serialize_floating_appends: "appends (\<lambda>out. serialize_floating out x)"
  by (simp add: appends_def serialize_floating_def write_view_def split: sum.splits)

lemma serialize_enum_appends: "appends (\<lambda>out. serialize_enum out d e)"
proof (cases "name_of d e")
  case None
  then show ?thesis
    using serialize_integral_appends [of "int_value e"] by (simp add: serialize_enum_def)
next
  case (Some n)
  then show ?thesis by (simp add: appends_def serialize_enum_def writer_simps)
qed

lemma wrap_appends:
  assumes "appends c"
  shows "appends (\<lambda>out. then_do (c (out\<lparr>buffer := buffer out @ opening\<rparr>))
                    (\<lambda>out6. Returns (out6\<lparr>buffer := buffer out6 @ closing\<rparr>)))"
  unfolding appends_def
proof (intro allI)
  fix out
  have a: "c w = shift (buffer w) (c \<lparr>buffer = []\<rparr>)" for w
    by (rule appendsD [OF assms])
  show "then_do (c (out\<lparr>buffer := buffer out @ opening\<rparr>))
          (\<lambda>out6. Returns (out6\<lparr>buffer := buffer out6 @ closing\<rparr>)) =
        shift (buffer out)
          (then_do (c (\<lparr>buffer = []\<rparr>\<lparr>buffer := buffer \<lparr>buffer = []\<rparr> @ opening\<rparr>))
             (\<lambda>out6. Returns (out6\<lparr>buffer := buffer out6 @ closing\<rparr>)))"
    by (subst a, subst (2) a) (simp add: then_do_shift)
qed

lemma encode_as_appends:
  assumes q: "qualifies c v"
    and parts: "\<And>x. size x < size v \<Longrightarrow> appends (serialize x)"
  shows "appends (encode_as c v)"
proof (cases c)
  case Boolean
  then show ?thesis
    by (simp add: appends_def serialize_boolean_def write_view_def)
next
  case Integer
  have "encode_as Integer v = (\<lambda>out. serialize_integral out (integral_value v))"
    by (rule ext) simp
  with Integer show ?thesis by (simp add: serialize_integral_appends)
next
  case FloatingPoint
  have "encode_as FloatingPoint v = (\<lambda>out. serialize_floating out (floating_value v))"
    by (rule ext) simp
  with FloatingPoint show ?thesis by (simp add: serialize_floating_appends)
next
  case StringLike
  then show ?thesis
    by (simp add: appends_def serialize_string_def writer_simps)
next
  case Enumeration
  have "encode_as Enumeration v =
        (\<lambda>out. serialize_enum out (enum_description v) (enum_value v))"
    by (rule ext) simp
  with Enumeration show ?thesis by (simp add: serialize_enum_appends)
next
  case MapLike
  have "appends (\<lambda>out. serialize_map serialize out v)"
    by (rule serialize_map_appends) (rule parts, rule size_map_entries)
  moreover have "encode_as MapLike v = (\<lambda>out. serialize_map serialize out v)"
    by (rule ext) simp
  ultimately show ?thesis using MapLike by simp
next
  case SequenceLike
  with q have r: "range_like v" by simp
  have "appends (\<lambda>out. serialize_sequence serialize out v)"
    by (rule serialize_sequence_appends) (rule parts, rule size_range_elements [OF _ r])
  moreover have "encode_as SequenceLike v = (\<lambda>out. serialize_sequence serialize out v)"
    by (rule ext) simp
  ultimately show ?thesis using SequenceLike by simp
next
  case Optional
  with q have o: "optional_like v" by simp
  show ?thesis
  proof (cases "has_value v")
    case True
    have "appends (serialize (payload v))"
      by (rule parts) (rule size_payload_optional [OF o True])
    moreover have "encode_as Optional v = serialize (payload v)"
      using True by (intro ext) simp
    ultimately show ?thesis using Optional by simp
  next
    case False
    with Optional show ?thesis by (simp add: appends_def write_view_def)
  qed
next
  case Result
  with q have "expected_like v" by simp
  then have "appends (serialize (payload v))"
    by (intro parts size_payload_expected)
  note inner = wrap_appends [OF this]
  define tag where "tag = (if has_value v then ''value'' else ''error'')"
  define before where "before =
    buffer (write_char CHR '':'' (write_escaped tag (write_char CHR '',''
      (write_escaped tag (write_char CHR '':'' (write_escaped ''state''
        (write_char CHR ''{'' \<lparr>buffer = []\<rparr>)))))))"
  have "encode_as Result v out =
        then_do (serialize (payload v) (out\<lparr>buffer := buffer out @ before\<rparr>))
          (\<lambda>out6. Returns (out6\<lparr>buffer := buffer out6 @ ''}''\<rparr>))" for out
    by (simp add: Let_def serialize_string_def writer_simps before_def tag_def)
  then have "encode_as Result v =
        (\<lambda>out. then_do (serialize (payload v) (out\<lparr>buffer := buffer out @ before\<rparr>))
          (\<lambda>out6. Returns (out6\<lparr>buffer := buffer out6 @ ''}''\<rparr>)))"
    by (rule ext)
  with inner [of before "''}''"] Result show ?thesis by simp
next
  case Variant
  with q have l: "variant_like v" by simp
  show ?thesis
  proof (cases "valueless_by_exception v")
    case True
    with Variant show ?thesis by (simp add: appends_def)
  next
    case False
    have a: "serialize (payload v) w = shift (buffer w) (serialize (payload v) \<lparr>buffer = []\<rparr>)"
      for w
      by (rule appendsD) (rule parts, rule size_payload_variant [OF l False])
    show ?thesis
      unfolding appends_def
    proof (intro allI)
      fix out
      show "encode_as c v out = shift (buffer out) (encode_as c v \<lparr>buffer = []\<rparr>)"
        apply (simp add: Variant False Let_def serialize_integral_def writer_simps
            split: sum.splits)
        apply (subst a, subst (2) a)
        apply (simp add: then_do_shift)
        done
    qed
  qed
next
  case ReflectableObject
  have "appends (\<lambda>out. serialize_object serialize out v)"
    by (rule serialize_object_appends) (rule parts, rule size_members)
  moreover have "encode_as ReflectableObject v = (\<lambda>out. serialize_object serialize out v)"
    by (rule ext) simp
  ultimately show ?thesis using ReflectableObject by simp
qed

lemma serialize_appends: "appends (serialize v)"
proof (induction v rule: measure_induct_rule [of size])
  case (less v)
  show ?case
  proof (cases "classify v")
    case None
    then have "serialize v = (\<lambda>out. IllFormed ''Type is not serializable'')"
      by (intro ext) (simp add: serialize_dispatch)
    then show ?thesis by (simp add: appends_def)
  next
    case (Some c)
    then have "serialize v = encode_as c v"
      by (intro ext) (simp add: serialize_dispatch)
    moreover have "appends (encode_as c v)"
      by (rule encode_as_appends) (rule classify_qualifies [OF Some], rule less.IH)
    ultimately show ?thesis by simp
  qed
qed

subsection \<open>Strings\<close>

lemma escape_char_spec: "escape_char = spec_escape"
  by (rule ext) (simp add: escape_char_def spec_escape_def)

lemma write_escaped_quoted: "write_escaped view out = out\<lparr>buffer := buffer out @ quoted view\<rparr>"
  by (simp add: write_escaped_buffer quoted_def escape_char_spec)

lemma unescape_escape: "unescape (spec_escape c @ rest) = map_option ((#) c) (unescape rest)"
  by (simp add: spec_escape_def)

lemma unescape_concat: "unescape (concat (map spec_escape s)) = Some s"
  by (induction s) (simp_all add: unescape_escape)

lemma decode_quoted_quoted: "decode_quoted (quoted s) = Some s"
  by (simp add: decode_quoted_def quoted_def unescape_concat butlast_append)

lemma serialize_eq_shift: "serialize v out = shift (buffer out) (to_json v)"
  unfolding to_json_def by (rule appendsD [OF serialize_appends])

lemma serialize_Returns:
  "to_json v = Returns \<lparr>buffer = text\<rparr> \<Longrightarrow> serialize v out = Returns (out\<lparr>buffer := buffer out @ text\<rparr>)"
  by (simp add: serialize_eq_shift [of v out])

subsection \<open>Numbers never overflow the buffer\<close>

lemma length_decimal_digits:
  "n < 10 ^ k \<Longrightarrow> 0 < k \<Longrightarrow> length (decimal_digits n) \<le> k"
proof (induction n arbitrary: k rule: decimal_digits.induct)
  case (1 n)
  show ?case
  proof (cases "n < 10")
    case True
    with "1.prems" show ?thesis by (subst decimal_digits.simps) simp
  next
    case False
    then obtain j where k: "k = Suc j"
      using "1.prems" by (cases k) auto
    with False "1.prems" have j: "0 < j" by (cases j) auto
    have "n div 10 < 10 ^ j"
      using "1.prems" k by (simp add: less_mult_imp_div_less mult.commute)
    from "1.IH" [OF False this j] False k show ?thesis
      by (subst decimal_digits.simps) simp
  qed
qed

lemma length_decimal_text_int_value: "length (decimal_text (int_value i)) \<le> 64"
proof -
  have digits: "length (decimal_digits n) \<le> 20" if "n < 10 ^ 20" for n
    using length_decimal_digits [OF that] by simp
  have u: "length (decimal_digits (nat (uint w))) \<le> 20" for w :: "64 word"
    using unsigned_less [of w, where ?'a = nat] by (intro digits) simp
  have s1: "length (decimal_digits (nat (sint w))) \<le> 20" for w :: "64 word"
    using sint_lt [of w] by (intro digits) simp
  have s2: "length (decimal_digits (nat (- sint w))) \<le> 20" for w :: "64 word"
    using sint_ge [of w] by (intro digits) simp
  show ?thesis
    using u [of "bits i"] s1 [of "bits i"] s2 [of "bits i"]
    by (simp add: decimal_text_def int_value_def)
qed

lemma serialize_integral_int_value:
  "serialize_integral out (int_value i) = Returns (write_view (decimal_text (int_value i)) out)"
  using length_decimal_text_int_value [of i]
  by (simp add: serialize_integral_def to_chars_integral_def to_chars_def)

lemma serialize_integral_uint:
  "serialize_integral out (uint (i :: 64 word)) = Returns (write_view (decimal_digits (unat i)) out)"
  using serialize_integral_int_value [of out "Integral Unsigned i"]
  by (simp add: int_value_def decimal_text_def)

subsection \<open>Enum lookups are first-match searches\<close>

lemma first_match_Some:
  "foldl (\<lambda>result c. if result = None \<and> P c then Some (f c) else result) (Some x) cs = Some x"
  by (induction cs) simp_all

lemma first_match_find:
  "foldl (\<lambda>result c. if result = None \<and> P c then Some (f c) else result) None cs =
     map_option f (find P cs)"
  by (induction cs) (simp_all add: first_match_Some)

lemma name_of_find:
  "name_of d v = map_option case_name (find (\<lambda>c. case_value c = v) (cases d))"
  unfolding name_of_def by (rule first_match_find)

lemma value_of_find:
  "value_of d n = map_option case_value (find (\<lambda>c. case_name c = n) (cases d))"
  unfolding value_of_def by (rule first_match_find)

lemma find_SomeD: "find P xs = Some x \<Longrightarrow> P x \<and> x \<in> set xs"
  by (induction xs) (auto split: if_splits)

lemma find_unique:
  assumes "distinct (map f xs)" "x \<in> set xs"
  shows "find (\<lambda>y. f y = f x) xs = Some x"
  using assms by (induction xs) auto

subsection \<open>Strings that are ranges\<close>

lemma ranges_range_not_arithmetic:
  "ranges_range v \<Longrightarrow> \<not> same_as_bool v \<and> \<not> is_integral v \<and> \<not> is_floating_point v"
  by (induction v) simp_all

lemma string_like_range_classify:
  "string_like v \<Longrightarrow> ranges_range v \<Longrightarrow> classify v = Some StringLike"
  using ranges_range_not_arithmetic [of v] by (simp add: classify_def priority_order_def)

lemma serialize_sequence_not_quoted:
  "serialize_sequence serialize out v \<noteq> Returns (write_escaped s out)"
proof -
  let ?body = "\<lambda>element (out1, first).
             case write_delimiter (out1, first) of
               (out2, first2) \<Rightarrow> then_do (serialize element out2) (\<lambda>out3. Returns (out3, first2))"
  have "appends_st (?body x)" for x
    using member_body_appends_st [OF serialize_appends [of x], of "[]"] by simp
  then have "appends_st (for_each (range_elements v) ?body)"
    by (intro for_each_appends_st)
  from appends_stD [OF this, of "write_char CHR ''['' out" True]
  have run: "for_each (range_elements v) ?body (write_char CHR ''['' out, True) =
             shift_st (buffer out @ ''['')
               (for_each (range_elements v) ?body (\<lparr>buffer = []\<rparr>, True))"
    by (simp add: write_char_def)
  define r where "r = for_each (range_elements v) ?body (\<lparr>buffer = []\<rparr>, True)"
  have seq: "serialize_sequence serialize out v =
        then_do (shift_st (buffer out @ ''['') r)
          (\<lambda>(out4, first). Returns (write_char CHR '']'' out4))"
    by (simp only: serialize_sequence_def run r_def)
  show ?thesis
  proof (cases r)
    case (Returns st)
    then show ?thesis
      by (cases st) (auto simp: seq writer_simps dest!: arg_cong [where f = buffer])
  next
    case (Throws e w)
    then show ?thesis by (simp add: seq)
  next
    case (IllFormed msg)
    then show ?thesis by (simp add: seq)
  qed
qed

subsection \<open>Objects\<close>

lemma then_do_assoc: "then_do (then_do r f) g = then_do r (\<lambda>x. then_do (f x) g)"
  by (cases r) simp_all

lemma for_each_append:
  "for_each (xs @ ys) body st = then_do (for_each xs body st) (for_each ys body)"
  by (induction xs arbitrary: st) (simp_all add: then_do_assoc cong: then_do_cong)

lemma for_each_concat:
  "for_each (concat (map f bs)) body st = for_each bs (\<lambda>b. for_each (f b) body) st"
  by (induction bs arbitrary: st) (simp_all add: for_each_append cong: then_do_cong)

lemma for_each_field_impl_flattened:
  "for_each_field_impl object d fn st =
     for_each (flattened_fields d)
       (\<lambda>field st1.
          case field_get field object of
            None \<Rightarrow> IllFormed ''member pointer of another class''
          | Some member \<Rightarrow> fn (field_name field) member st1) st"
proof (induction d arbitrary: st)
  case (TypeDescriptor bs fs)
  let ?visit = "\<lambda>field st1.
          case field_get field object of
            None \<Rightarrow> IllFormed ''member pointer of another class''
          | Some member \<Rightarrow> fn (field_name field) member st1"
  have "for_each bs (\<lambda>base. for_each_field object base fn) st =
        for_each bs (\<lambda>base. for_each (flattened_fields base) ?visit) st"
    by (rule for_each_cong) (simp_all add: TypeDescriptor.IH)
  then show ?case
    by (simp add: for_each_append for_each_concat)
qed

lemma members_loop:
  assumes "list_all2 (\<lambda>f e. field_ptr f < length ms \<and>
              to_json (ms ! field_ptr f) = Returns \<lparr>buffer = e\<rparr>) fs es"
  shows "for_each fs
           (\<lambda>field st1.
              case field_get field ms of
                None \<Rightarrow> IllFormed ''member pointer of another class''
              | Some member \<Rightarrow>
                  (\<lambda>name field (out1, first).
                     case write_delimiter (out1, first) of
                       (out2, first2) \<Rightarrow>
                         then_do (serialize field (write_char CHR '':'' (write_escaped name out2)))
                           (\<lambda>out3. Returns (out3, first2))) (field_name field) member st1)
           (out, True) =
         Returns (out\<lparr>buffer := buffer out @
                    comma_separated
                      (map (\<lambda>(n, e). quoted n @ '':'' @ e) (zip (map field_name fs) es))\<rparr>,
                  fs = [])"
proof -
  define body where "body =
    (\<lambda>field st1.
       case field_get field ms of
         None \<Rightarrow> IllFormed ''member pointer of another class''
       | Some member \<Rightarrow>
           (\<lambda>name field (out1, first).
              case write_delimiter (out1, first) of
                (out2, first2) \<Rightarrow>
                  then_do (serialize field (write_char CHR '':'' (write_escaped name out2)))
                    (\<lambda>out3. Returns (out3, first2))) (field_name field) member st1)"
  have step: "body f (w, first) =
        Returns (w\<lparr>buffer := buffer w @ (if first then [] else '','') @
                   quoted (field_name f) @ '':'' @ e\<rparr>, False)"
    if "field_ptr f < length ms" "to_json (ms ! field_ptr f) = Returns \<lparr>buffer = e\<rparr>"
    for f e w first
    using that
    by (simp add: body_def field_get_def serialize_Returns [OF that(2)] write_escaped_quoted
        write_char_def)
  have rest: "for_each fs body (w, False) =
         Returns (w\<lparr>buffer := buffer w @
                    concat (map (\<lambda>y. CHR '','' # y)
                      (map (\<lambda>(n, e). quoted n @ '':'' @ e) (zip (map field_name fs) es)))\<rparr>, False)"
    if "list_all2 (\<lambda>f e. field_ptr f < length ms \<and>
              to_json (ms ! field_ptr f) = Returns \<lparr>buffer = e\<rparr>) fs es"
    for fs es w
    using that
  proof (induction fs es arbitrary: w rule: list_all2_induct)
    case Nil
    show ?case by simp
  next
    case (Cons f fs e es)
    from Cons.hyps(1) have "body f (w, False) =
        Returns (w\<lparr>buffer := buffer w @ '','' @ quoted (field_name f) @ '':'' @ e\<rparr>, False)"
      using step [of f e w False] by simp
    then show ?case
      by (simp add: Cons.IH)
  qed
  have "for_each fs body (out, True) =
         Returns (out\<lparr>buffer := buffer out @
                    comma_separated
                      (map (\<lambda>(n, e). quoted n @ '':'' @ e) (zip (map field_name fs) es))\<rparr>,
                  fs = [])"
  proof (cases fs)
    case Nil
    with assms show ?thesis by simp
  next
    case (Cons f fs')
    with assms obtain e es' where es: "es = e # es'"
      and f: "field_ptr f < length ms" "to_json (ms ! field_ptr f) = Returns \<lparr>buffer = e\<rparr>"
      and tl: "list_all2 (\<lambda>f e. field_ptr f < length ms \<and>
              to_json (ms ! field_ptr f) = Returns \<lparr>buffer = e\<rparr>) fs' es'"
      by (auto simp: list_all2_Cons1)
    show ?thesis
      by (simp add: Cons es step [OF f, of out True] rest [OF tl])
  qed
  then show ?thesis by (simp only: body_def)
qed

section \<open>The properties the specification states\<close>

text \<open>
  C1. \<open>serialize\<close> applies the rule of the first category of the priority order for
  which the type of the value qualifies, and rejects a type that qualifies for none.
  In particular a value whose type is string-like and also a range (of characters) is
  classified string-like and encoded as the quoted, escaped string, which differs from
  what the rule for sequences would give.
\<close>

theorem first_qualifying_category:
  "serialize v out =
     (case classify v of
        Some c \<Rightarrow> encode_as c v out
      | None \<Rightarrow> IllFormed ''Type is not serializable'')
   \<and> (string_like v \<and> ranges_range v \<longrightarrow>
        classify v = Some StringLike
        \<and> serialize v out = Returns (out\<lparr>buffer := buffer out @ quoted (std_string_view v)\<rparr>)
        \<and> serialize v out \<noteq> serialize_sequence serialize out v)"
proof -
  have "classify v = Some StringLike
        \<and> serialize v out = Returns (out\<lparr>buffer := buffer out @ quoted (std_string_view v)\<rparr>)
        \<and> serialize v out \<noteq> serialize_sequence serialize out v"
    if "string_like v" "ranges_range v"
  proof -
    have c: "classify v = Some StringLike"
      using that by (rule string_like_range_classify)
    have s: "serialize v out = Returns (write_escaped (std_string_view v) out)"
      using that(1) by (simp add: serialize_dispatch c serialize_string_def string_like_def)
    have "serialize_sequence serialize out v \<noteq> Returns (write_escaped (std_string_view v) out)"
      by (rule serialize_sequence_not_quoted)
    with c s show ?thesis
      by (simp add: write_escaped_quoted)
  qed
  with serialize_dispatch [of v out] show ?thesis by blast
qed

theorem first_qualifying_category_witness:
  \<open>string_like labelled \<and> ranges_range labelled
   \<and> qualifies StringLike labelled \<and> qualifies ReflectableObject labelled
   \<and> classify labelled = Some StringLike
   \<and> to_json labelled = Returns \<lparr>buffer = ''"hi"''\<rparr>
   \<and> to_json labelled \<noteq> serialize_sequence serialize \<lparr>buffer = []\<rparr> labelled\<close>
proof -
  have h: "string_like labelled \<and> ranges_range labelled"
    by (simp add: labelled_def string_like_def)
  have q: "qualifies StringLike labelled \<and> qualifies ReflectableObject labelled"
    by (simp add: labelled_def string_like_def)
  have r: \<open>\<lparr>buffer = []\<rparr>\<lparr>buffer := buffer \<lparr>buffer = []\<rparr> @ quoted (std_string_view labelled)\<rparr>
           = \<lparr>buffer = ''"hi"''\<rparr>\<close>
    by (simp add: labelled_def quoted_def spec_escape_def)
  note t = first_qualifying_category [of labelled "\<lparr>buffer = []\<rparr>", THEN conjunct2, THEN mp, OF h]
  have 1: "classify labelled = Some StringLike"
    using t by blast
  have 2: \<open>to_json labelled = Returns \<lparr>buffer = ''"hi"''\<rparr>\<close>
    using t unfolding to_json_def r by blast
  have 3: "to_json labelled \<noteq> serialize_sequence serialize \<lparr>buffer = []\<rparr> labelled"
    using t unfolding to_json_def by blast
  from h q 1 2 3 show ?thesis by blast
qed

text \<open>
  C2. \<open>for_each_field\<close> visits the fields in flattened order, for every callback: the
  fields of the bases first, each base flattened in turn, then the own fields.
  So when the members the flattened fields point to encode to the texts \<open>es\<close>, the
  object encodes to the object text of the flattened field names paired with \<open>es\<close>;
  a type with one base contributing \<open>f1\<close> and own fields \<open>f2\<close>, \<open>f3\<close> gives
  \<open>{"f1":...,"f2":...,"f3":...}\<close>.
\<close>

theorem object_fields_flattened:
  "for_each_field ms d fn st =
     for_each (flattened_fields d)
       (\<lambda>field st1.
          case field_get field ms of
            None \<Rightarrow> IllFormed ''member pointer of another class''
          | Some member \<Rightarrow> fn (field_name field) member st1) st
   \<and> (list_all2 (\<lambda>f e. field_ptr f < length ms \<and>
              to_json (ms ! field_ptr f) = Returns \<lparr>buffer = e\<rparr>) (flattened_fields d) es \<longrightarrow>
        to_json (VObject d ms) =
          Returns \<lparr>buffer = object_text (zip (map field_name (flattened_fields d)) es)\<rparr>)"
proof (intro conjI impI)
  show "for_each_field ms d fn st =
     for_each (flattened_fields d)
       (\<lambda>field st1.
          case field_get field ms of
            None \<Rightarrow> IllFormed ''member pointer of another class''
          | Some member \<Rightarrow> fn (field_name field) member st1) st"
    by (simp only: for_each_field.simps for_each_field_impl_flattened)
next
  assume a: "list_all2 (\<lambda>f e. field_ptr f < length ms \<and>
              to_json (ms ! field_ptr f) = Returns \<lparr>buffer = e\<rparr>) (flattened_fields d) es"
  show "to_json (VObject d ms) =
          Returns \<lparr>buffer = object_text (zip (map field_name (flattened_fields d)) es)\<rparr>"
    unfolding to_json_def serialize_VObject serialize_object_def Let_def type_description.simps
      members.simps for_each_field.simps for_each_field_impl_flattened
    by (subst members_loop [OF a]) (simp add: object_text_def writer_simps)
qed

theorem object_fields_flattened_witness:
  \<open>list_all2 (\<lambda>f e. field_ptr f < length [VInt (Integral Signed 1), VBool True, VString ''x''] \<and>
       to_json ([VInt (Integral Signed 1), VBool True, VString ''x''] ! field_ptr f) =
         Returns \<lparr>buffer = e\<rparr>)
     (flattened_fields
        (TypeDescriptor [TypeDescriptor [] [Field ''f1'' 0]] [Field ''f2'' 1, Field ''f3'' 2]))
     [''1'', ''true'', ''"x"'']
   \<and> to_json (VObject
         (TypeDescriptor [TypeDescriptor [] [Field ''f1'' 0]] [Field ''f2'' 1, Field ''f3'' 2])
         [VInt (Integral Signed 1), VBool True, VString ''x'']) =
       Returns \<lparr>buffer = ''{"f1":1,"f2":true,"f3":"x"}''\<rparr>\<close>
proof -
  have 1: "to_json (VInt (Integral Signed 1)) = Returns \<lparr>buffer = ''1''\<rparr>" by code_simp
  have 2: "to_json (VBool True) = Returns \<lparr>buffer = ''true''\<rparr>" by code_simp
  have 3: \<open>to_json (VString ''x'') = Returns \<lparr>buffer = ''"x"''\<rparr>\<close> by code_simp
  have h: \<open>list_all2 (\<lambda>f e. field_ptr f < length [VInt (Integral Signed 1), VBool True, VString ''x''] \<and>
       to_json ([VInt (Integral Signed 1), VBool True, VString ''x''] ! field_ptr f) =
         Returns \<lparr>buffer = e\<rparr>)
     (flattened_fields
        (TypeDescriptor [TypeDescriptor [] [Field ''f1'' 0]] [Field ''f2'' 1, Field ''f3'' 2]))
     [''1'', ''true'', ''"x"'']\<close>
    by (simp add: 1 2 3)
  have t: \<open>object_text (zip (map field_name (flattened_fields
        (TypeDescriptor [TypeDescriptor [] [Field ''f1'' 0]] [Field ''f2'' 1, Field ''f3'' 2])))
        [''1'', ''true'', ''"x"'']) = ''{"f1":1,"f2":true,"f3":"x"}''\<close>
    by (simp add: object_text_def quoted_def spec_escape_def)
  from object_fields_flattened [THEN conjunct2, THEN mp, OF h] h
  show ?thesis unfolding t by blast
qed


text \<open>
  C3. A string-like value (a \<open>std::string\<close>-like range of characters or a C string) is
  encoded as its characters between double quotes, each character replaced by what the
  escaping table gives for it (the five escapes, every other byte unchanged); this holds
  for \<open>write_escaped\<close> on any writer. Reading the escapes of the result back gives the
  original string.
\<close>

theorem string_quoted_roundtrip:
  "to_json (VString s) = Returns \<lparr>buffer = quoted s\<rparr>
   \<and> to_json (VCStr s) = Returns \<lparr>buffer = quoted s\<rparr>
   \<and> str (write_escaped s out) = str out @ quoted s
   \<and> decode_quoted (quoted s) = Some s"
  by (simp add: to_json_def serialize_VString serialize_VCStr write_escaped_quoted
      decode_quoted_quoted str_def)

text \<open>
  C4. An absent optional is encoded as the text \<open>null\<close>; an optional holding \<open>x\<close> is
  encoded exactly as \<open>x\<close> is, on every writer.
\<close>

theorem optional_transparent:
  "serialize (VOptional None) out = Returns (write_view ''null'' out)
   \<and> to_json (VOptional None) = Returns \<lparr>buffer = ''null''\<rparr>
   \<and> serialize (VOptional (Some x)) out = serialize x out
   \<and> to_json (VOptional (Some x)) = to_json x"
  by (simp add: to_json_def serialize_VOptional_None serialize_VOptional_Some write_view_def)

text \<open>
  C5. When the payload \<open>x\<close> encodes to the text \<open>E\<close>, a result holding \<open>x\<close> as its value
  encodes to \<open>{"state":"value","value":E}\<close> and a result holding \<open>x\<close> as its error encodes
  to \<open>{"state":"error","error":E}\<close>.
\<close>

theorem expected_object:
  assumes "to_json x = Returns \<lparr>buffer = E\<rparr>"
  shows \<open>to_json (VExpected True x) = Returns \<lparr>buffer = ''{"state":"value","value":'' @ E @ ''}''\<rparr>
       \<and> to_json (VExpected False x) = Returns \<lparr>buffer = ''{"state":"error","error":'' @ E @ ''}''\<rparr>\<close>
  by (simp add: to_json_def serialize_VExpected_value serialize_VExpected_error
      serialize_Returns [OF assms] writer_simps escape_char_def)

theorem expected_object_witness:
  \<open>to_json (VInt (Integral Signed 12)) = Returns \<lparr>buffer = ''12''\<rparr>
   \<and> to_json (VExpected True (VInt (Integral Signed 12))) =
       Returns \<lparr>buffer = ''{"state":"value","value":12}''\<rparr>
   \<and> to_json (VString ''boom'') = Returns \<lparr>buffer = ''"boom"''\<rparr>
   \<and> to_json (VExpected False (VString ''boom'')) =
       Returns \<lparr>buffer = ''{"state":"error","error":"boom"}''\<rparr>\<close>
proof -
  have h: "to_json (VInt (Integral Signed 12)) = Returns \<lparr>buffer = ''12''\<rparr>"
    by code_simp
  have k: \<open>to_json (VString ''boom'') = Returns \<lparr>buffer = ''"boom"''\<rparr>\<close>
    by code_simp
  show ?thesis using h k expected_object [OF h] expected_object [OF k] by simp
qed

text \<open>
  C6. When the payload \<open>x\<close> encodes to the text \<open>E\<close>, a variant holding \<open>x\<close> as its
  alternative number \<open>i\<close> (counted from zero) encodes to \<open>{"index":i,"value":E}\<close>, with
  \<open>i\<close> in decimal.
\<close>

theorem variant_object:
  assumes "to_json x = Returns \<lparr>buffer = E\<rparr>"
  shows \<open>to_json (VVariant i x) =
          Returns \<lparr>buffer = ''{"index":'' @ decimal_digits (unat i) @ '',"value":'' @ E @ ''}''\<rparr>\<close>
  by (simp add: to_json_def serialize_VVariant serialize_integral_uint
      serialize_Returns [OF assms] writer_simps escape_char_def)

theorem variant_object_witness:
  \<open>to_json (VString ''hi'') = Returns \<lparr>buffer = ''"hi"''\<rparr>
   \<and> to_json (VVariant 1 (VString ''hi'')) = Returns \<lparr>buffer = ''{"index":1,"value":"hi"}''\<rparr>\<close>
proof -
  have h: \<open>to_json (VString ''hi'') = Returns \<lparr>buffer = ''"hi"''\<rparr>\<close>
    by code_simp
  have d: "decimal_digits (Suc 0) = ''1''"
    by (simp add: decimal_digits.simps)
  show ?thesis using h variant_object [OF h, of 1] by (simp add: d)
qed

text \<open>
  C7. An enumeration value is encoded by \<open>serialize_enum\<close>: the quoted name when
  \<open>name_of\<close> finds one, the decimal text of the underlying value otherwise; both cases
  return normally.
\<close>

theorem enum_name_or_number:
  "serialize (VEnum d v) out = serialize_enum out d v
   \<and> serialize_enum out d v =
       (case name_of d v of
          Some n \<Rightarrow> Returns (out\<lparr>buffer := buffer out @ quoted n\<rparr>)
        | None \<Rightarrow> Returns (out\<lparr>buffer := buffer out @ decimal_text (int_value v)\<rparr>))"
  by (simp add: serialize_VEnum serialize_enum_def serialize_integral_int_value
      write_escaped_quoted write_view_def split: option.splits)

text \<open>
  C8, as amended. On every descriptor \<open>name_of\<close> gives the name of the first case with
  the discriminant and \<open>value_of\<close> the discriminant of the first case with the name,
  nothing when no case matches; on a descriptor in which no two cases share a name and
  no two share a discriminant, the two lookups are inverse to each other.
\<close>

theorem enum_lookup_first_match:
  "name_of d v = map_option case_name (find (\<lambda>c. case_value c = v) (cases d))
   \<and> value_of d n = map_option case_value (find (\<lambda>c. case_name c = n) (cases d))
   \<and> (distinct (map case_name (cases d)) \<and> distinct (map case_value (cases d)) \<longrightarrow>
        (name_of d v = Some n \<longleftrightarrow> value_of d n = Some v))"
proof (intro conjI impI)
  show "name_of d v = map_option case_name (find (\<lambda>c. case_value c = v) (cases d))"
    by (rule name_of_find)
  show "value_of d n = map_option case_value (find (\<lambda>c. case_name c = n) (cases d))"
    by (rule value_of_find)
next
  assume "distinct (map case_name (cases d)) \<and> distinct (map case_value (cases d))"
  then have names: "distinct (map case_name (cases d))"
    and discriminants: "distinct (map case_value (cases d))"
    by simp_all
  have "value_of d n = Some v" if "name_of d v = Some n"
  proof -
    from that obtain c where "find (\<lambda>c. case_value c = v) (cases d) = Some c" "case_name c = n"
      by (auto simp: name_of_find)
    then have c: "c \<in> set (cases d)" "case_value c = v" "case_name c = n"
      by (auto dest: find_SomeD)
    from find_unique [OF names c(1)] c show ?thesis
      by (simp add: value_of_find)
  qed
  moreover have "name_of d v = Some n" if "value_of d n = Some v"
  proof -
    from that obtain c where "find (\<lambda>c. case_name c = n) (cases d) = Some c" "case_value c = v"
      by (auto simp: value_of_find)
    then have c: "c \<in> set (cases d)" "case_value c = v" "case_name c = n"
      by (auto dest: find_SomeD)
    from find_unique [OF discriminants c(1)] c show ?thesis
      by (simp add: name_of_find)
  qed
  ultimately show "name_of d v = Some n \<longleftrightarrow> value_of d n = Some v"
    by blast
qed

theorem enum_lookup_first_match_witness:
  "distinct (map case_name (cases tone)) \<and> distinct (map case_value (cases tone))
   \<and> name_of tone (Integral Signed 1) = Some ''cool''
   \<and> (name_of tone (Integral Signed 1) = Some ''cool'' \<longleftrightarrow>
        value_of tone ''cool'' = Some (Integral Signed 1))"
proof -
  have h: "distinct (map case_name (cases tone)) \<and> distinct (map case_value (cases tone))"
    by (simp add: tone_def)
  have c: "name_of tone (Integral Signed 1) = Some ''cool''"
    by (simp add: tone_def name_of_def)
  note t = enum_lookup_first_match [of tone "Integral Signed 1" "''cool''",
      THEN conjunct2, THEN conjunct2, THEN mp, OF h]
  from h c t show ?thesis by blast
qed

text \<open>
  C8 as stated fails where cases share a discriminant or a name: with \<open>a = 1, b = 1\<close>
  the name \<open>b\<close> maps to 1 and 1 maps back to \<open>a\<close>; with two cases named \<open>a\<close> for 1 and 2,
  the value 2 maps to \<open>a\<close> and \<open>a\<close> maps back to 1.
\<close>

theorem enum_lookup_counterexample:
  "value_of \<lparr>cases = [EnumCase ''a'' (1::int), EnumCase ''b'' 1]\<rparr> ''b'' = Some 1
   \<and> name_of \<lparr>cases = [EnumCase ''a'' (1::int), EnumCase ''b'' 1]\<rparr> 1 = Some ''a''
   \<and> name_of \<lparr>cases = [EnumCase ''a'' (1::int), EnumCase ''b'' 1]\<rparr> 1 \<noteq> Some ''b''
   \<and> name_of \<lparr>cases = [EnumCase ''a'' (1::int), EnumCase ''a'' 2]\<rparr> 2 = Some ''a''
   \<and> value_of \<lparr>cases = [EnumCase ''a'' (1::int), EnumCase ''a'' 2]\<rparr> ''a'' = Some 1
   \<and> value_of \<lparr>cases = [EnumCase ''a'' (1::int), EnumCase ''a'' 2]\<rparr> ''a'' \<noteq> Some 2"
  by (simp add: name_of_def value_of_def)

text \<open>
  C9. An integer is formatted into 64 bytes and a floating-point value into 128 bytes.
  The encoder throws exactly when \<open>std::to_chars\<close> reports an error; what it throws is
  a \<open>serialization_error\<close> with its message and the place of the \<open>throw\<close>, and the
  writer is left as it was. Otherwise the text is appended.
\<close>

theorem number_conversion_failure:
  "serialize (VInt i) out = serialize_integral out (int_value i)
   \<and> serialize (VFloat x) out = serialize_floating out x
   \<and> (to_chars_integral 64 n = Inl value_too_large \<longleftrightarrow> (\<exists>e out'. serialize_integral out n = Throws e out'))
   \<and> serialize_integral out n =
       (if 64 < length (decimal_text n)
        then Throws (SerializationError
               \<lparr>message = ''integral conversion failed'', where_loc = \<lparr>line = 408\<rparr>\<rparr>) out
        else Returns (out\<lparr>buffer := buffer out @ decimal_text n\<rparr>))
   \<and> (to_chars_floating 128 x = Inl value_too_large \<longleftrightarrow> (\<exists>e out'. serialize_floating out x = Throws e out'))
   \<and> serialize_floating out x =
       (if 128 < length (shortest_text x)
        then Throws (SerializationError
               \<lparr>message = ''floating conversion failed'', where_loc = \<lparr>line = 418\<rparr>\<rparr>) out
        else Returns (out\<lparr>buffer := buffer out @ shortest_text x\<rparr>))"
  by (simp add: serialize_VInt serialize_VFloat serialize_integral_def serialize_floating_def
      to_chars_integral_def to_chars_floating_def to_chars_def write_view_def)

text \<open>
  C10. When \<open>serialize\<close> returns, the writer holds its earlier contents followed by a
  text that depends on the value only: every other writer gets the same text appended,
  and \<open>to_json\<close>, which runs \<open>serialize\<close> on an empty writer, returns that text.
\<close>

theorem serialize_only_appends:
  assumes "serialize v out = Returns out'"
  shows "\<exists>text. buffer out' = buffer out @ text
           \<and> (\<forall>out2. serialize v out2 = Returns (out2\<lparr>buffer := buffer out2 @ text\<rparr>))
           \<and> to_json v = Returns \<lparr>buffer = text\<rparr>
           \<and> to_json v = serialize v \<lparr>buffer = []\<rparr>"
proof -
  from assms have "shift (buffer out) (to_json v) = Returns out'"
    by (simp add: serialize_eq_shift [of v out])
  then obtain w where w: "to_json v = Returns w" "out' = w\<lparr>buffer := buffer out @ buffer w\<rparr>"
    by (cases "to_json v") auto
  have "w = \<lparr>buffer = buffer w\<rparr>" by simp
  with w have t: "to_json v = Returns \<lparr>buffer = buffer w\<rparr>" by simp
  have "serialize v out2 = Returns (out2\<lparr>buffer := buffer out2 @ buffer w\<rparr>)" for out2
    by (rule serialize_Returns [OF t])
  with w t show ?thesis by (auto simp: to_json_def)
qed

theorem serialize_only_appends_witness:
  "serialize (VRange [VInt (Integral Signed 1), VInt (Integral Signed 2)]) \<lparr>buffer = ''x=''\<rparr> =
     Returns \<lparr>buffer = ''x=[1,2]''\<rparr>
   \<and> (\<exists>text. ''x=[1,2]'' = ''x='' @ text
           \<and> (\<forall>out2. serialize (VRange [VInt (Integral Signed 1), VInt (Integral Signed 2)]) out2 =
                  Returns (out2\<lparr>buffer := buffer out2 @ text\<rparr>))
           \<and> to_json (VRange [VInt (Integral Signed 1), VInt (Integral Signed 2)]) = Returns \<lparr>buffer = text\<rparr>)"
proof -
  have h: "serialize (VRange [VInt (Integral Signed 1), VInt (Integral Signed 2)]) \<lparr>buffer = ''x=''\<rparr> =
     Returns \<lparr>buffer = ''x=[1,2]''\<rparr>"
    by code_simp
  from serialize_only_appends [OF h] h show ?thesis by auto
qed

section \<open>The assertions of \<open>serializer_tests.cpp\<close>\<close>

text \<open>
  The model gives the texts the repository's tests assert, and shows the two failures
  the tests do not reach.
\<close>

lemmas eval_simps =
  to_json_def serialize_VBool serialize_VInt serialize_VFloat serialize_VString serialize_VCStr
  serialize_VEnum serialize_VPairRange serialize_VRange serialize_VOptional_None
  serialize_VOptional_Some serialize_VExpected_value serialize_VExpected_error
  serialize_VVariant serialize_VVariantValueless serialize_VObject serialize_VOpaque
  serialize_boolean_def serialize_integral_def serialize_floating_def serialize_enum_def
  serialize_string_def serialize_sequence_def serialize_map_def serialize_object_def
  string_like_def field_get_def int_value_def decimal_text_def decimal_digits.simps
  to_chars_integral_def to_chars_floating_def to_chars_def name_of_def writer_simps
  escape_char_def tone_def alice_def employee_description_def named_description_def
  address_description_def

lemmas overlap_simps =
  serialize_dispatch classify_def priority_order_def map_like_def range_like_def Let_def
  labelled_def described_numbers_def described_flag_def char_array_def char_integral_def

lemma test_plain_types:
  "serialize (VInt (Integral Signed 42)) \<lparr>buffer = []\<rparr> = Returns \<lparr>buffer = ''42''\<rparr>"
  "serialize (VFloat (Floating ''3.5'')) \<lparr>buffer = []\<rparr> = Returns \<lparr>buffer = ''3.5''\<rparr>"
  "serialize (VBool True) \<lparr>buffer = []\<rparr> = Returns \<lparr>buffer = ''true''\<rparr>"
  by (simp_all add: eval_simps)

lemma test_strings_and_ranges:
  \<open>to_json (VString ''hello'') = Returns \<lparr>buffer = ''"hello"''\<rparr>\<close>
  \<open>to_json (VRange [VInt (Integral Signed 1), VInt (Integral Signed 2), VInt (Integral Signed 3)]) =
     Returns \<lparr>buffer = ''[1,2,3]''\<rparr>\<close>
  by (simp_all add: eval_simps)

lemma test_struct_and_inheritance:
  \<open>to_json alice =
     Returns \<lparr>buffer =
       ''{"name":"Alice","id":7,"address":{"street":"Fifth","number":9},"favorite_numbers":[3,5,7]}''\<rparr>\<close>
  by (simp add: eval_simps)

lemma test_enums:
  \<open>to_json (VEnum tone (Integral Signed 1)) = Returns \<lparr>buffer = ''"cool"''\<rparr>\<close>
  by (simp add: eval_simps)

lemma test_maps_optionals_expected:
  \<open>to_json (VPairRange [(VString ''a'', VInt (Integral Signed 1)),
                         (VString ''b'', VInt (Integral Signed 2))]) =
     Returns \<lparr>buffer = ''{"a":1,"b":2}''\<rparr>\<close>
  \<open>to_json (VOptional (Some (VInt (Integral Signed 5)))) = Returns \<lparr>buffer = ''5''\<rparr>\<close>
  \<open>to_json (VOptional None) = Returns \<lparr>buffer = ''null''\<rparr>\<close>
  \<open>to_json (VExpected True (VInt (Integral Signed 12))) =
     Returns \<lparr>buffer = ''{"state":"value","value":12}''\<rparr>\<close>
  \<open>to_json (VExpected False (VString ''boom'')) =
     Returns \<lparr>buffer = ''{"state":"error","error":"boom"}''\<rparr>\<close>
  by (simp_all add: eval_simps)

lemma test_variant:
  \<open>to_json (VVariant 0 (VInt (Integral Signed 3))) = Returns \<lparr>buffer = ''{"index":0,"value":3}''\<rparr>\<close>
  \<open>to_json (VVariant 1 (VString ''hi'')) = Returns \<lparr>buffer = ''{"index":1,"value":"hi"}''\<rparr>\<close>
  by (simp_all add: eval_simps)

lemma beyond_the_tests:
  \<open>to_json (VEnum tone (Integral Signed 7)) = Returns \<lparr>buffer = ''7''\<rparr>\<close>
  \<open>to_json (VRange []) = Returns \<lparr>buffer = ''[]''\<rparr>\<close>
  \<open>to_json VVariantValueless = Throws BadVariantAccess \<lparr>buffer = []\<rparr>\<close>
  \<open>to_json (VPairRange [(VInt (Integral Signed 1), VBool True)]) =
     IllFormed ''JSON map keys must be string-like''\<close>
  \<open>to_json (VRange [VOpaque]) = IllFormed ''Type is not serializable''\<close>
  by (simp_all add: eval_simps)

text \<open>
  Where several categories qualify the earlier one decides, and the rule of a later
  one would give another text.
\<close>

lemma overlapping_types:
  \<open>qualifies SequenceLike described_numbers \<and> qualifies ReflectableObject described_numbers\<close>
  \<open>to_json described_numbers = Returns \<lparr>buffer = ''[1,2]''\<rparr>\<close>
  \<open>encode_as ReflectableObject described_numbers \<lparr>buffer = []\<rparr> = Returns \<lparr>buffer = ''{"n":1}''\<rparr>\<close>
  \<open>qualifies Boolean described_flag \<and> qualifies ReflectableObject described_flag\<close>
  \<open>to_json described_flag = Returns \<lparr>buffer = ''true''\<rparr>\<close>
  \<open>encode_as ReflectableObject described_flag \<lparr>buffer = []\<rparr> = Returns \<lparr>buffer = ''{}''\<rparr>\<close>
  \<open>qualifies StringLike char_array \<and> ranges_range char_array \<and> \<not> qualifies SequenceLike char_array\<close>
  \<open>to_json char_array = Returns \<lparr>buffer = ''"hi"''\<rparr>\<close>
  \<open>encode_as SequenceLike char_array \<lparr>buffer = []\<rparr> = Returns \<lparr>buffer = ''[104,105,0]''\<rparr>\<close>
  \<open>encode_as ReflectableObject labelled \<lparr>buffer = []\<rparr> = Returns \<lparr>buffer = ''{"n":1}''\<rparr>\<close>
  by (simp_all add: eval_simps overlap_simps)

text \<open>As a range, a string yields its characters as signed numbers.\<close>

lemma string_as_range:
  "map integral_value (range_elements (VString [CHR 0xE9, CHR ''a''])) = [- 23, 97]"
  by (simp add: char_integral_def int_value_def)

end
